theory Spec2Isabelle
  imports Main
begin

section \<open>Errors, database calls and the handler monad\<close>

text \<open>
  A handler of \<^verbatim>\<open>User.controller.ts\<close> either sends a JSON response or throws. A thrown
  \<^verbatim>\<open>ApiError({ code, error })\<close> is the value \<open>ApiError code error\<close>; a rejected
  database promise is \<open>QueryFailed\<close>.
\<close>

datatype Error = ApiError (code: nat) (error: string) | QueryFailed

text \<open>The nine entities whose rows refer to a user through their \<^verbatim>\<open>user\<close> relation.\<close>

datatype Entity =
  Activity | UserProfile | EmailOptIn | UserStats | UserGameStats
  | LinkedAccount | PasswordReset | EmailVerification | GameApplication

text \<open>
  Every \<^verbatim>\<open>await\<close> on the repository layer or on the transaction's entity manager is one
  database call. The connection records the calls that were issued, in order, and
  \<open>failing n\<close> tells whether the \<open>n\<close>-th call issued on it (counted from 0) is rejected.
\<close>

datatype Call =
  FindUsersWithPaging | LeaderboardFindUsers | GetUsersLikeUsername
  | FindByUsername | SaveUser
  | Find Entity | Remove Entity | SelectGames | SaveGame nat | RemoveUser nat

record 'd Conn =
  store :: 'd
  issued :: "Call list"
  failing :: "nat \<Rightarrow> bool"

type_synonym ('d, 'a) io = "'d Conn \<Rightarrow> (Error + 'a) \<times> 'd Conn"

definition return :: "'a \<Rightarrow> ('d, 'a) io" where
  "return x c = (Inr x, c)"

definition throw :: "Error \<Rightarrow> ('d, 'a) io" where
  "throw e c = (Inl e, c)"

text \<open>Sequencing of two awaited steps: an exception skips the rest.\<close>

definition bind :: "('d, 'a) io \<Rightarrow> ('a \<Rightarrow> ('d, 'b) io) \<Rightarrow> ('d, 'b) io" where
  "bind m f c = (case m c of (Inl e, c') \<Rightarrow> (Inl e, c') | (Inr x, c') \<Rightarrow> f x c')"

text \<open>
  One database call: it is logged; if it is the failing one the promise rejects and the
  store is left as it was, otherwise \<open>f\<close> reads and updates the store.
\<close>

definition call :: "Call \<Rightarrow> ('d \<Rightarrow> 'a \<times> 'd) \<Rightarrow> ('d, 'a) io" where
  "call l f c =
     (let c1 = c\<lparr>issued := issued c @ [l]\<rparr>
      in if failing c (length (issued c)) then (Inl QueryFailed, c1)
         else (case f (store c) of (x, d) \<Rightarrow> (Inr x, c1\<lparr>store := d\<rparr>)))"

text \<open>A call that only reads.\<close>

definition query :: "Call \<Rightarrow> ('d \<Rightarrow> 'a) \<Rightarrow> ('d, 'a) io" where
  "query l f = call l (\<lambda>d. (f d, d))"

text \<open>
  \<^verbatim>\<open>getConnection().transaction(body)\<close>: the body runs on the connection; when it throws,
  the store is put back to what it was when the transaction began and the exception is
  passed on; when it returns, its writes are committed.
\<close>

definition transaction :: "('d, 'a) io \<Rightarrow> ('d, 'a) io" where
  "transaction body c =
     (case body c of
        (Inl e, c') \<Rightarrow> (Inl e, c'\<lparr>store := store c\<rparr>)
      | (Inr x, c') \<Rightarrow> (Inr x, c'))"

section \<open>Query parameters\<close>

text \<open>
  Modelled from the spec: \<^verbatim>\<open>parseIntWithDefault\<close> and \<^verbatim>\<open>parseBooleanWithDefault\<close> of
  \<^verbatim>\<open>test/helpers\<close> are not among the sources. A raw query parameter is \<open>None\<close> when it
  is missing or does not parse, and \<open>Some v\<close> when it parses to \<open>v\<close>. An integer
  parameter falls back to the default when it does not parse and is otherwise clamped
  into the inclusive range; a boolean one falls back to the default.
\<close>

definition parseIntWithDefault :: "int option \<Rightarrow> int \<Rightarrow> int \<Rightarrow> int \<Rightarrow> int" where
  "parseIntWithDefault v def lower upper =
     (case v of None \<Rightarrow> def | Some n \<Rightarrow> max lower (min upper n))"

definition parseBooleanWithDefault :: "bool option \<Rightarrow> bool \<Rightarrow> bool" where
  "parseBooleanWithDefault v def = (case v of None \<Rightarrow> def | Some b \<Rightarrow> b)"

text \<open>
  lodash's \<^verbatim>\<open>_.clamp(number, lower, upper)\<close>: first cut at \<open>upper\<close>, then raise to
  \<open>lower\<close>.
\<close>

definition clamp :: "int \<Rightarrow> int \<Rightarrow> int \<Rightarrow> int" where
  "clamp number lower upper =
     (let n = (if number \<le> upper then number else upper)
      in if lower \<le> n then n else lower)"

text \<open>A number inside a template literal: its decimal digits, with a sign when negative.\<close>

fun digits :: "nat \<Rightarrow> string" where
  "digits n =
     (if n < 10 then [''0123456789'' ! n]
      else digits (n div 10) @ [''0123456789'' ! (n mod 10)])"

declare digits.simps [simp del]

definition num :: "int \<Rightarrow> string" where
  "num i = (if i < 0 then CHR ''-'' # digits (nat (- i)) else digits (nat i))"

section \<open>Paged listings\<close>

record PageRequest =
  protocol :: string
  host :: string
  baseUrl :: string
  path :: string
  q_first :: "int option"
  q_after :: "int option"

record PagingOptions =
  first :: int
  after :: int
  orderBy :: string
  relations :: "string list"

record Pagination =
  before :: "string option"
  after_link :: "string option"

record 'u PageResponse =
  data :: "'u list"
  pagination :: Pagination

text \<open>\<^verbatim>\<open>`${request.protocol}://${request.get('host')}${request.baseUrl}${request.path}`\<close>\<close>

definition request_url :: "PageRequest \<Rightarrow> string" where
  "request_url request = protocol request @ ''://'' @ host request @ baseUrl request @ path request"

text \<open>
  The part that \<^verbatim>\<open>all\<close> and \<^verbatim>\<open>getUsersLeaderboards\<close> share word for word: the two links
  and the two assignments of \<open>null\<close>.
\<close>

text \<open>\<^verbatim>\<open>`${url}?first=${first}&after=${offset}`\<close>\<close>

definition link :: "string \<Rightarrow> int \<Rightarrow> int \<Rightarrow> string" where
  "link url fst_p offset = url @ ''?first='' @ num fst_p @ ''&after='' @ num offset"

definition paginate :: "string \<Rightarrow> int \<Rightarrow> int \<Rightarrow> 'u list \<Rightarrow> Pagination" where
  "paginate url fst_p aft_p rows =
     (let p = \<lparr>before = Some (link url fst_p (clamp (aft_p - fst_p) 0 aft_p)),
               after_link = Some (link url fst_p (aft_p + fst_p))\<rparr>;
          p = (if length rows = 0 then p\<lparr>after_link := None\<rparr> else p);
          p = (if aft_p = 0 then p\<lparr>before := None\<rparr> else p)
      in p)"

text \<open>
  \<^verbatim>\<open>all\<close>. The constant \<^verbatim>\<open>DATABASE_MAX_ID\<close> and the repository's
  \<^verbatim>\<open>findUsersWithPaging\<close> are not among the sources and are parameters.
\<close>

definition all ::
  "int \<Rightarrow> ('d \<Rightarrow> PagingOptions \<Rightarrow> 'u list) \<Rightarrow> PageRequest \<Rightarrow> ('d, 'u PageResponse) io" where
  "all DATABASE_MAX_ID findUsersWithPaging request =
     (let params_first = parseIntWithDefault (q_first request) 20 1 100;
          params_after = parseIntWithDefault (q_after request) 0 0 DATABASE_MAX_ID
      in bind (query FindUsersWithPaging (\<lambda>d. findUsersWithPaging d
                 \<lparr>first = params_first, after = params_after,
                  orderBy = ''updatedAt'', relations = [''connections'']\<rparr>))
           (\<lambda>users. return \<lparr>data = users,
                pagination = paginate (request_url request) params_first params_after users\<rparr>))"

text \<open>\<^verbatim>\<open>getUsersLeaderboards\<close>, over the leaderboard repository's \<^verbatim>\<open>findUsers(first, after)\<close>.\<close>

definition getUsersLeaderboards ::
  "int \<Rightarrow> ('d \<Rightarrow> int \<Rightarrow> int \<Rightarrow> 'u list) \<Rightarrow> PageRequest \<Rightarrow> ('d, 'u PageResponse) io" where
  "getUsersLeaderboards DATABASE_MAX_ID findUsers request =
     (let params_first = parseIntWithDefault (q_first request) 20 1 100;
          params_after = parseIntWithDefault (q_after request) 0 0 DATABASE_MAX_ID
      in bind (query LeaderboardFindUsers (\<lambda>d. findUsers d params_first params_after))
           (\<lambda>leaderboards. return \<lparr>data = leaderboards,
                pagination = paginate (request_url request) params_first params_after leaderboards\<rparr>))"

section \<open>Users, roles and linked accounts\<close>

text \<open>
  \<^verbatim>\<open>models/User\<close> is not among the sources. The members of \<^verbatim>\<open>UserRole\<close> are those the
  spec names. What \<^verbatim>\<open>role <= UserRole.MODERATOR\<close> compares is the value behind each
  member; the handler takes the place of each value in their order as the parameter
  \<open>rank\<close>.
\<close>

datatype UserRole = PENDING | USER | MODERATOR | ADMIN

text \<open>
  In the documentation of the handlers a role is the string of its name
  (\<^verbatim>\<open>"role": "ADMIN"\<close>, \<^verbatim>\<open>"role": "MODERATOR"\<close>).
\<close>

fun role_value :: "UserRole \<Rightarrow> string" where
  "role_value PENDING = ''PENDING''"
| "role_value USER = ''USER''"
| "role_value MODERATOR = ''MODERATOR''"
| "role_value ADMIN = ''ADMIN''"

text \<open>JavaScript's \<^verbatim>\<open><=\<close> on two strings: code unit by code unit, a prefix first.\<close>

fun string_le :: "string \<Rightarrow> string \<Rightarrow> bool" where
  "string_le [] ys = True"
| "string_le (x # xs) [] = False"
| "string_le (x # xs) (y # ys) =
     (if (of_char x :: nat) < of_char y then True
      else if (of_char x :: nat) = of_char y then string_le xs ys
      else False)"

text \<open>
  The place of a role's string in that order: the number of roles whose string is
  strictly smaller. It puts \<open>ADMIN\<close> and \<open>MODERATOR\<close> at or below \<open>MODERATOR\<close> and
  \<open>PENDING\<close> and \<open>USER\<close> above, as the handler's own message has it: "Users with roles
  moderator or higher cannot be deleted".
\<close>

definition value_rank :: "UserRole \<Rightarrow> nat" where
  "value_rank r =
     length (filter (\<lambda>x. \<not> string_le (role_value r) (role_value x))
               [PENDING, USER, MODERATOR, ADMIN])"

text \<open>A row of the user table, with the columns the handlers and their documentation name.\<close>

record User =
  uid :: nat
  username :: string
  email :: string
  role :: UserRole
  avatarUrl :: "string option"

text \<open>
  A linked account as the lookup returns it has exactly a username and a provider. A
  row of the linked-account table is any record that extends it by further columns.
\<close>

record Account =
  account_username :: string
  provider :: string

text \<open>A user loaded together with its \<^verbatim>\<open>connections\<close> relation.\<close>

record 'c Loaded =
  entity :: User
  connections :: "'c list"

text \<open>The object \<^verbatim>\<open>{ username: e.username, id: e.id }\<close>.\<close>

record Ident =
  ident_username :: string
  ident_id :: nat

section \<open>Username lookup\<close>

text \<open>
  Strings are lists of 8-bit characters. \<^verbatim>\<open>\s\<close> matches tab, line feed, vertical tab,
  form feed, carriage return, space and the no-break space among them.
\<close>

definition whitespace :: "char \<Rightarrow> bool" where
  "whitespace ch = (of_char ch \<in> {9, 10, 11, 12, 13, 32, 160 :: nat})"

text \<open>\<^verbatim>\<open>s.replace(/\s/g, '')\<close>\<close>

definition remove_whitespace :: "string \<Rightarrow> string" where
  "remove_whitespace s = filter (\<lambda>ch. \<not> whitespace ch) s"

definition trim :: "string \<Rightarrow> string" where
  "trim s = rev (dropWhile whitespace (rev (dropWhile whitespace s)))"

definition lower :: "char \<Rightarrow> char" where
  "lower ch =
     (let n = (of_char ch :: nat)
      in if (65 \<le> n \<and> n \<le> 90) \<or> (192 \<le> n \<and> n \<le> 222 \<and> n \<noteq> 215)
         then char_of (n + 32) else ch)"

definition toLowerCase :: "string \<Rightarrow> string" where
  "toLowerCase s = map lower s"

record LookupQuery =
  q_username :: "string option"
  q_limit :: "int option"
  q_full :: "bool option"

datatype LookupResponse = Full "Account Loaded list" | Reduced "Ident list"

text \<open>
  \<^verbatim>\<open>lookupUser\<close>. The repository's \<^verbatim>\<open>getUsersLikeUsername(username, limit, relations)\<close> is
  not among the sources and is a parameter.
\<close>

definition lookupUser ::
  "('d \<Rightarrow> string \<Rightarrow> int \<Rightarrow> string list \<Rightarrow> ('m Account_scheme) Loaded list)
   \<Rightarrow> LookupQuery \<Rightarrow> ('d, LookupResponse) io" where
  "lookupUser getUsersLikeUsername request =
     (let name = (case q_username request of None \<Rightarrow> [] | Some u \<Rightarrow> u);
          name = trim (remove_whitespace name);
          limit = parseIntWithDefault (q_limit request) 50 1 50;
          full = parseBooleanWithDefault (q_full request) False
      in if name = []
         then throw (ApiError 400 ''The specified username within the query must not be empty.'')
         else bind (query GetUsersLikeUsername
                      (\<lambda>d. getUsersLikeUsername d name limit [''connections'']))
           (\<lambda>users.
              let users = map (\<lambda>user. \<lparr>entity = entity user,
                                 connections = map (\<lambda>a. \<lparr>account_username = account_username a,
                                                          provider = toLowerCase (provider a)\<rparr>)
                                                   (connections user)\<rparr>) users
              in if full then return (Full users)
                 else return (Reduced (map (\<lambda>e. \<lparr>ident_username = username (entity e),
                                                   ident_id = uid (entity e)\<rparr>) users))))"

section \<open>Update\<close>

text \<open>
  \<^verbatim>\<open>Object.assign\<close> works on the entity as a bag of properties, whatever their names, so
  here the bound user and the request body are objects: maps from property names to
  JSON values. A property that is missing reads as \<open>None\<close> (\<^verbatim>\<open>undefined\<close>).
\<close>

datatype jsval = Null | Bool bool | Num int | Str string

type_synonym obj = "string \<rightharpoonup> jsval"

text \<open>\<^verbatim>\<open>_.isNil(value)\<close>: \<^verbatim>\<open>undefined\<close> or \<^verbatim>\<open>null\<close>.\<close>

definition isNil :: "jsval option \<Rightarrow> bool" where
  "isNil v = (v = None \<or> v = Some Null)"

text \<open>\<^verbatim>\<open>Object.assign(target, source)\<close>: every property of the source is set on the target.\<close>

definition assign :: "obj \<Rightarrow> obj \<Rightarrow> obj" where
  "assign target source = target ++ source"

text \<open>
  Modelled from the spec: the user repository's \<^verbatim>\<open>findByUsername\<close> and the entity's
  \<^verbatim>\<open>save\<close> are not among the sources. \<open>findByUsername\<close> gives the stored user that has
  the username, none for a missing one; \<open>save\<close> persists the entity as it is, in the place
  of the stored row that has its id, or as a new row when there is none.
\<close>

definition findByUsername :: "obj list \<Rightarrow> jsval option \<Rightarrow> obj option" where
  "findByUsername users name =
     (if isNil name then None else find (\<lambda>u. u ''username'' = name) users)"

definition save :: "obj \<Rightarrow> obj list \<Rightarrow> obj list" where
  "save e users =
     (if \<exists>u \<in> set users. u ''id'' = e ''id''
      then map (\<lambda>u. if u ''id'' = e ''id'' then e else u) users
      else users @ [e])"

record UpdateRequest =
  update_boundUser :: obj
  body :: obj

text \<open>\<^verbatim>\<open>update\<close>. The password hash of \<^verbatim>\<open>utils/hash\<close> is a parameter.\<close>

definition update :: "(jsval \<Rightarrow> jsval) \<Rightarrow> UpdateRequest \<Rightarrow> (obj list, obj) io" where
  "update hash request =
     (let params = body request
      in bind (query FindByUsername (\<lambda>users. findByUsername users (params ''username'')))
           (\<lambda>existingUsername.
              if (case existingUsername of None \<Rightarrow> False
                  | Some existing \<Rightarrow> existing ''id'' \<noteq> update_boundUser request ''id'')
              then throw (ApiError 409 ''The provided username already exists for a registered user.'')
              else
                let params = (case params ''password'' of
                                None \<Rightarrow> params
                              | Some Null \<Rightarrow> params
                              | Some password \<Rightarrow> params(''password'' \<mapsto> hash password));
                    boundUser = assign (update_boundUser request) params
                in bind (call SaveUser (\<lambda>users. ((), save boundUser users)))
                     (\<lambda>_. return boundUser)))"

section \<open>Removing a user\<close>

text \<open>A row of one of the nine dependent tables: its primary key and the user it refers to.\<close>

record Row =
  row_id :: nat
  row_user :: nat

text \<open>
  A game and its JSON \<^verbatim>\<open>storage\<close>; \<^verbatim>\<open>storage.players\<close> maps a user id to the player record
  \<^verbatim>\<open>{ id, team, username }\<close>. The storage and its players may be missing
  (\<^verbatim>\<open>null\<close> or \<^verbatim>\<open>undefined\<close>), and so may the entry for an id: \<open>ps i = None\<close> stands for an
  entry that is absent or null, which the loop's \<^verbatim>\<open>_.isNil\<close> test skips.
\<close>

record Player =
  player_id :: nat
  team :: nat
  player_username :: string

record Storage =
  players :: "(nat \<rightharpoonup> Player) option"

record Game =
  game_id :: nat
  storage :: "Storage option"

record Database =
  users :: "User list"
  rows :: "Entity \<Rightarrow> Row list"
  games :: "Game list"

text \<open>
  The request: the authenticated user who sends it, and the user that the route's
  \<^verbatim>\<open>:user\<close> parameter was bound to.
\<close>

record DeleteRequest =
  user :: User
  boundUser :: User

text \<open>
  The calls on the transaction's entity manager are typeorm's; they are given their
  documented meaning on the tables.

  \<^verbatim>\<open>transaction.find(E, { where: { user: removingUser } })\<close>: the rows of \<open>E\<close> that refer to
  the user.
\<close>

definition find_rows :: "Entity \<Rightarrow> User \<Rightarrow> Database \<Rightarrow> Row list" where
  "find_rows e u d = filter (\<lambda>r. row_user r = uid u) (rows d e)"

text \<open>\<^verbatim>\<open>transaction.remove(found)\<close>: the rows are deleted by primary key.\<close>

definition remove_rows :: "Entity \<Rightarrow> Row list \<Rightarrow> Database \<Rightarrow> Database" where
  "remove_rows e found d =
     d\<lparr>rows := (rows d)(e := filter (\<lambda>r. row_id r \<notin> row_id ` set found) (rows d e))\<rparr>"

text \<open>One \<^verbatim>\<open>find\<close> and the \<^verbatim>\<open>remove\<close> of what it found.\<close>

definition purge :: "Entity \<Rightarrow> User \<Rightarrow> (Database, unit) io" where
  "purge e u =
     bind (query (Find e) (find_rows e u))
       (\<lambda>found. call (Remove e) (\<lambda>d. ((), remove_rows e found d)))"

text \<open>The query \<^verbatim>\<open>(storage ->> 'players')::json -> :id IS NOT NULL\<close>.\<close>

definition has_player :: "nat \<Rightarrow> Game \<Rightarrow> bool" where
  "has_player i g =
     (case storage g of None \<Rightarrow> False
      | Some s \<Rightarrow> (case players s of None \<Rightarrow> False | Some ps \<Rightarrow> ps i \<noteq> None))"

definition select_games :: "nat \<Rightarrow> Database \<Rightarrow> Game list" where
  "select_games i d = filter (has_player i) (games d)"

text \<open>
  \<^verbatim>\<open>transaction.save(game)\<close>: the row with the game's id is replaced by the game; a game
  whose id is in no row is inserted.
\<close>

definition save_game :: "Game \<Rightarrow> Database \<Rightarrow> Database" where
  "save_game g d =
     d\<lparr>games := (if \<exists>x \<in> set (games d). game_id x = game_id g
                  then map (\<lambda>x. if game_id x = game_id g then g else x) (games d)
                  else games d @ [g])\<rparr>"

text \<open>\<^verbatim>\<open>transaction.remove(removingUser)\<close>\<close>

definition remove_user :: "User \<Rightarrow> Database \<Rightarrow> Database" where
  "remove_user u d = d\<lparr>users := filter (\<lambda>x. uid x \<noteq> uid u) (users d)\<rparr>"

text \<open>
  The body of the loop over \<^verbatim>\<open>userRelatedGames\<close>, up to the save. When the game has a
  storage with players and an entry under the user's id, that entry is overwritten in
  the loaded game by \<^verbatim>\<open>{ id: 0, team: player.team, username: 'Competitor' }\<close>; otherwise
  the game is skipped.
\<close>

definition replace_player :: "nat \<Rightarrow> Game \<Rightarrow> Game option" where
  "replace_player removingUserId game =
     (case storage game of
        None \<Rightarrow> None
      | Some gameStorage \<Rightarrow>
          (case players gameStorage of
             None \<Rightarrow> None
           | Some ps \<Rightarrow>
               (case ps removingUserId of
                  None \<Rightarrow> None
                | Some player \<Rightarrow>
                    Some (game\<lparr>storage := Some (gameStorage\<lparr>players := Some
                            (ps(removingUserId \<mapsto>
                               \<lparr>player_id = 0, team = team player,
                                player_username = ''Competitor''\<rparr>))\<rparr>)\<rparr>))))"

text \<open>The loop: each game that was changed is saved on its own.\<close>

fun patch_games :: "nat \<Rightarrow> Game list \<Rightarrow> (Database, unit) io" where
  "patch_games removingUserId [] = return ()"
| "patch_games removingUserId (game # rest) =
     (case replace_player removingUserId game of
        None \<Rightarrow> patch_games removingUserId rest
      | Some changed \<Rightarrow>
          bind (call (SaveGame (game_id changed)) (\<lambda>d. ((), save_game changed d)))
            (\<lambda>_. patch_games removingUserId rest))"

text \<open>Steps awaited one after the other.\<close>

fun sequence :: "('d, unit) io list \<Rightarrow> ('d, unit) io" where
  "sequence [] = return ()"
| "sequence (m # ms) = bind m (\<lambda>_. sequence ms)"

text \<open>
  The body of the transaction: the nine dependent tables in the order of the source, the
  games, and last the user.
\<close>

definition cascade :: "User \<Rightarrow> (Database, unit) io" where
  "cascade removingUser =
     sequence
       [purge Activity removingUser,
        purge UserProfile removingUser,
        purge EmailOptIn removingUser,
        purge UserStats removingUser,
        purge UserGameStats removingUser,
        purge LinkedAccount removingUser,
        purge PasswordReset removingUser,
        purge EmailVerification removingUser,
        purge GameApplication removingUser,
        bind (query SelectGames (select_games (uid removingUser)))
          (\<lambda>userRelatedGames. patch_games (uid removingUser) userRelatedGames),
        call (RemoveUser (uid removingUser)) (\<lambda>d. ((), remove_user removingUser d))]"

text \<open>
  \<^verbatim>\<open>deleteUser\<close>. The user called \<^verbatim>\<open>removingUser\<close> is \<^verbatim>\<open>request.boundUser\<close>, the one to be
  removed. The response \<^verbatim>\<open>{ user: removingUserId }\<close> is the id, read before the
  transaction.
\<close>

definition deleteUser :: "(UserRole \<Rightarrow> nat) \<Rightarrow> DeleteRequest \<Rightarrow> (Database, nat) io" where
  "deleteUser rank request =
     (let removingUser = boundUser request;
          removingUserId = uid removingUser
      in if rank (role removingUser) \<le> rank MODERATOR
         then throw (ApiError 400
           ''Users with roles moderator or higher cannot be deleted, ensure to demote the user first.'')
         else bind (transaction (cascade removingUser))
                (\<lambda>_. return removingUserId))"

section \<open>Example data\<close>

text \<open>
  An administrator and a plain user, one game in which both played, a game without a
  storage, and rows in two of the dependent tables.
\<close>

definition root :: User where
  "root = \<lparr>uid = 7, username = ''root'', email = ''root@example.com'', role = ADMIN, avatarUrl = None\<rparr>"

definition guest :: User where
  "guest = \<lparr>uid = 3, username = ''guest'', email = ''guest@example.com'', role = USER, avatarUrl = None\<rparr>"

definition example_game :: Game where
  "example_game = \<lparr>game_id = 10, storage = Some \<lparr>players = Some
      [7 \<mapsto> \<lparr>player_id = 7, team = 1, player_username = ''root''\<rparr>,
           3 \<mapsto> \<lparr>player_id = 3, team = 0, player_username = ''guest''\<rparr>]\<rparr>\<rparr>"

definition example_db :: Database where
  "example_db = \<lparr>users = [root, guest],
     rows = (\<lambda>e. if e = Activity then [\<lparr>row_id = 1, row_user = 3\<rparr>, \<lparr>row_id = 2, row_user = 7\<rparr>]
                else if e = LinkedAccount then [\<lparr>row_id = 1, row_user = 3\<rparr>] else []),
     games = [example_game, \<lparr>game_id = 11, storage = None\<rparr>]\<rparr>"

text \<open>A connection on the example database; \<open>f\<close> tells which calls are rejected.\<close>

definition example_conn :: "(nat \<Rightarrow> bool) \<Rightarrow> Database Conn" where
  "example_conn f = \<lparr>store = example_db, issued = [], failing = f\<rparr>"

section \<open>Database calls\<close>

lemma call_run:
  "call l f c =
     (if failing c (length (issued c)) then (Inl QueryFailed, c\<lparr>issued := issued c @ [l]\<rparr>)
      else (Inr (fst (f (store c))), c\<lparr>issued := issued c @ [l], store := snd (f (store c))\<rparr>))"
  by (simp add: call_def Let_def split: prod.split)

lemma query_run:
  "query l f c =
     (if failing c (length (issued c)) then (Inl QueryFailed, c\<lparr>issued := issued c @ [l]\<rparr>)
      else (Inr (f (store c)), c\<lparr>issued := issued c @ [l]\<rparr>))"
  unfolding query_def call_run by simp

section \<open>Paged listings: the two links\<close>

lemma clamp_before: "0 \<le> f \<Longrightarrow> clamp (a - f) 0 a = max (a - f) 0"
  by (simp add: clamp_def Let_def)

lemma parse_first_range: "1 \<le> parseIntWithDefault v 20 1 100"
  by (simp add: parseIntWithDefault_def split: option.split)

lemma paginate_before:
  "0 \<le> f \<Longrightarrow> before (paginate url f a page) =
     (if a = 0 then None else Some (link url f (max (a - f) 0)))"
  by (simp add: paginate_def Let_def clamp_before)

lemma paginate_after:
  "after_link (paginate url f a page) =
     (if page = [] then None else Some (link url f (a + f)))"
  by (simp add: paginate_def Let_def)

lemma all_run:
  "all m repo request c =
     (if failing c (length (issued c))
      then (Inl QueryFailed, c\<lparr>issued := issued c @ [FindUsersWithPaging]\<rparr>)
      else (Inr \<lparr>data = repo (store c)
                    \<lparr>first = parseIntWithDefault (q_first request) 20 1 100,
                     after = parseIntWithDefault (q_after request) 0 0 m,
                     orderBy = ''updatedAt'', relations = [''connections'']\<rparr>,
                pagination = paginate (request_url request)
                    (parseIntWithDefault (q_first request) 20 1 100)
                    (parseIntWithDefault (q_after request) 0 0 m)
                    (repo (store c)
                    \<lparr>first = parseIntWithDefault (q_first request) 20 1 100,
                     after = parseIntWithDefault (q_after request) 0 0 m,
                     orderBy = ''updatedAt'', relations = [''connections'']\<rparr>)\<rparr>,
            c\<lparr>issued := issued c @ [FindUsersWithPaging]\<rparr>))"
  unfolding all_def bind_def query_run return_def Let_def
  by (simp only: split: if_split prod.split) simp

lemma getUsersLeaderboards_run:
  "getUsersLeaderboards m findUsers request c =
     (if failing c (length (issued c))
      then (Inl QueryFailed, c\<lparr>issued := issued c @ [LeaderboardFindUsers]\<rparr>)
      else (Inr \<lparr>data = findUsers (store c)
                    (parseIntWithDefault (q_first request) 20 1 100)
                    (parseIntWithDefault (q_after request) 0 0 m),
                pagination = paginate (request_url request)
                    (parseIntWithDefault (q_first request) 20 1 100)
                    (parseIntWithDefault (q_after request) 0 0 m)
                    (findUsers (store c)
                    (parseIntWithDefault (q_first request) 20 1 100)
                    (parseIntWithDefault (q_after request) 0 0 m))\<rparr>,
            c\<lparr>issued := issued c @ [LeaderboardFindUsers]\<rparr>))"
  unfolding getUsersLeaderboards_def bind_def query_run return_def Let_def
  by (simp only: split: if_split prod.split) simp

text \<open>
  C5. For every request to \<^verbatim>\<open>all\<close> or \<^verbatim>\<open>getUsersLeaderboards\<close> that is answered, with
  \<open>first\<close> and \<open>after\<close> the parsed parameters: the \<open>before\<close> link is null exactly when
  \<open>after\<close> is 0, and otherwise it is the link whose offset is \<open>max (after - first) 0\<close>.
\<close>

theorem before_link_offset:
  assumes "all DATABASE_MAX_ID findUsersWithPaging request c = (Inr r, c')
         \<or> getUsersLeaderboards DATABASE_MAX_ID findUsers request c = (Inr r, c')"
      and "params_first = parseIntWithDefault (q_first request) 20 1 100"
      and "params_after = parseIntWithDefault (q_after request) 0 0 DATABASE_MAX_ID"
  shows "before (pagination r) =
           (if params_after = 0 then None
            else Some (link (request_url request) params_first (max (params_after - params_first) 0)))
       \<and> (before (pagination r) = None \<longleftrightarrow> params_after = 0)"
proof -
  have f0: "0 \<le> params_first"
    using parse_first_range [of "q_first request"] assms(2) by simp
  have "pagination r = paginate (request_url request) params_first params_after (data r)"
    using assms by (auto simp: all_run getUsersLeaderboards_run split: if_splits)
  then show ?thesis
    using f0 by (simp add: paginate_before)
qed

text \<open>
  C6. For every request to \<^verbatim>\<open>all\<close> or \<^verbatim>\<open>getUsersLeaderboards\<close> that is answered: the
  \<open>after\<close> link is null exactly when the returned page is empty, and otherwise it is
  the link whose offset is \<open>after + first\<close>.
\<close>

theorem after_link_offset:
  assumes "all DATABASE_MAX_ID findUsersWithPaging request c = (Inr r, c')
         \<or> getUsersLeaderboards DATABASE_MAX_ID findUsers request c = (Inr r, c')"
      and "params_first = parseIntWithDefault (q_first request) 20 1 100"
      and "params_after = parseIntWithDefault (q_after request) 0 0 DATABASE_MAX_ID"
  shows "after_link (pagination r) =
           (if data r = [] then None
            else Some (link (request_url request) params_first (params_after + params_first)))
       \<and> (after_link (pagination r) = None \<longleftrightarrow> data r = [])"
proof -
  have "pagination r = paginate (request_url request) params_first params_after (data r)"
    using assms by (auto simp: all_run getUsersLeaderboards_run split: if_splits)
  then show ?thesis
    by (simp add: paginate_after)
qed


text \<open>
  The leaderboard request of the handler's documentation, \<^verbatim>\<open>first=5&after=40\<close>: the
  \<open>before\<close> link carries \<^verbatim>\<open>after=35\<close>.
\<close>

theorem before_link_offset_witness:
  "getUsersLeaderboards 2147483647 (\<lambda>d f a. d)
     \<lparr>protocol = ''http'', host = ''localhost:8080'', baseUrl = ''/users'',
      path = ''/leaderboards'', q_first = Some 5, q_after = Some 40\<rparr>
     \<lparr>store = [46::nat, 42], issued = [], failing = (\<lambda>n. False)\<rparr>
   = (Inr \<lparr>data = [46, 42],
           pagination = \<lparr>before = Some ''http://localhost:8080/users/leaderboards?first=5&after=35'',
                         after_link = Some ''http://localhost:8080/users/leaderboards?first=5&after=45''\<rparr>\<rparr>,
      \<lparr>store = [46, 42], issued = [LeaderboardFindUsers], failing = (\<lambda>n. False)\<rparr>)
   \<and> before \<lparr>before = Some ''http://localhost:8080/users/leaderboards?first=5&after=35'',
              after_link = Some ''http://localhost:8080/users/leaderboards?first=5&after=45''\<rparr>
     = Some (link ''http://localhost:8080/users/leaderboards'' 5 (max (40 - 5) 0))"
proof -
  have run: "getUsersLeaderboards 2147483647 (\<lambda>d f a. d)
     \<lparr>protocol = ''http'', host = ''localhost:8080'', baseUrl = ''/users'',
      path = ''/leaderboards'', q_first = Some 5, q_after = Some 40\<rparr>
     \<lparr>store = [46::nat, 42], issued = [], failing = (\<lambda>n. False)\<rparr>
   = (Inr \<lparr>data = [46, 42],
           pagination = \<lparr>before = Some ''http://localhost:8080/users/leaderboards?first=5&after=35'',
                         after_link = Some ''http://localhost:8080/users/leaderboards?first=5&after=45''\<rparr>\<rparr>,
      \<lparr>store = [46, 42], issued = [LeaderboardFindUsers], failing = (\<lambda>n. False)\<rparr>)"
    by (simp add: getUsersLeaderboards_run paginate_def link_def num_def digits.simps
        clamp_def parseIntWithDefault_def request_url_def)
  show ?thesis
    using run before_link_offset [OF disjI2 [OF run] refl refl]
    by (simp add: parseIntWithDefault_def request_url_def)
qed

text \<open>
  The listing request of the handler's documentation, \<^verbatim>\<open>first=1\<close> with no offset, on
  a page of one user: \<open>before\<close> is null and the \<open>after\<close> link carries \<^verbatim>\<open>after=1\<close>.
\<close>

theorem after_link_offset_witness:
  "all 2147483647 (\<lambda>d opts. d)
     \<lparr>protocol = ''http'', host = ''localhost:8080'', baseUrl = ''/users'',
      path = ''/'', q_first = Some 1, q_after = None\<rparr>
     \<lparr>store = [1354::nat], issued = [], failing = (\<lambda>n. False)\<rparr>
   = (Inr \<lparr>data = [1354],
           pagination = \<lparr>before = None,
                         after_link = Some ''http://localhost:8080/users/?first=1&after=1''\<rparr>\<rparr>,
      \<lparr>store = [1354], issued = [FindUsersWithPaging], failing = (\<lambda>n. False)\<rparr>)
   \<and> after_link \<lparr>before = None,
                  after_link = Some ''http://localhost:8080/users/?first=1&after=1''\<rparr>
     = Some (link ''http://localhost:8080/users/'' 1 (0 + 1))"
proof -
  have run: "all 2147483647 (\<lambda>d opts. d)
     \<lparr>protocol = ''http'', host = ''localhost:8080'', baseUrl = ''/users'',
      path = ''/'', q_first = Some 1, q_after = None\<rparr>
     \<lparr>store = [1354::nat], issued = [], failing = (\<lambda>n. False)\<rparr>
   = (Inr \<lparr>data = [1354],
           pagination = \<lparr>before = None,
                         after_link = Some ''http://localhost:8080/users/?first=1&after=1''\<rparr>\<rparr>,
      \<lparr>store = [1354], issued = [FindUsersWithPaging], failing = (\<lambda>n. False)\<rparr>)"
    by (simp add: all_run paginate_def link_def num_def digits.simps
        clamp_def parseIntWithDefault_def request_url_def)
  show ?thesis
    using run after_link_offset [OF disjI1 [OF run] refl refl]
    by (simp add: parseIntWithDefault_def request_url_def)
qed

section \<open>Username lookup: the empty username and the two shapes of the response\<close>

lemma remove_whitespace_trim: "trim (remove_whitespace s) = remove_whitespace s"
proof -
  have a: "dropWhile whitespace (filter (\<lambda>ch. \<not> whitespace ch) s) = filter (\<lambda>ch. \<not> whitespace ch) s"
    by (cases "filter (\<lambda>ch. \<not> whitespace ch) s") (auto simp: filter_eq_Cons_iff)
  have "rev (filter (\<lambda>ch. \<not> whitespace ch) s) = filter (\<lambda>ch. \<not> whitespace ch) (rev s)"
    by (simp add: rev_filter)
  moreover have "dropWhile whitespace (filter (\<lambda>ch. \<not> whitespace ch) (rev s)) = filter (\<lambda>ch. \<not> whitespace ch) (rev s)"
    by (cases "filter (\<lambda>ch. \<not> whitespace ch) (rev s)") (auto simp: filter_eq_Cons_iff)
  ultimately show ?thesis
    by (simp add: trim_def remove_whitespace_def a rev_filter)
qed

lemma lookupUser_run:
  "lookupUser repo request c =
     (if remove_whitespace (case q_username request of None \<Rightarrow> [] | Some u \<Rightarrow> u) = []
      then (Inl (ApiError 400 ''The specified username within the query must not be empty.''), c)
      else if failing c (length (issued c))
      then (Inl QueryFailed, c\<lparr>issued := issued c @ [GetUsersLikeUsername]\<rparr>)
      else (Inr (if parseBooleanWithDefault (q_full request) False
                 then Full (map (\<lambda>l. \<lparr>entity = entity l,
                                 connections = map (\<lambda>a. \<lparr>account_username = account_username a,
                                                          provider = toLowerCase (provider a)\<rparr>)
                                                   (connections l)\<rparr>)
                        (repo (store c) (remove_whitespace (case q_username request of None \<Rightarrow> [] | Some u \<Rightarrow> u))
                           (parseIntWithDefault (q_limit request) 50 1 50) [''connections'']))
                 else Reduced (map (\<lambda>e. \<lparr>ident_username = username (entity e), ident_id = uid (entity e)\<rparr>)
                        (map (\<lambda>l. \<lparr>entity = entity l,
                                 connections = map (\<lambda>a. \<lparr>account_username = account_username a,
                                                          provider = toLowerCase (provider a)\<rparr>)
                                                   (connections l)\<rparr>)
                        (repo (store c) (remove_whitespace (case q_username request of None \<Rightarrow> [] | Some u \<Rightarrow> u))
                           (parseIntWithDefault (q_limit request) 50 1 50) [''connections''])))),
            c\<lparr>issued := issued c @ [GetUsersLikeUsername]\<rparr>))"
  unfolding lookupUser_def bind_def query_run return_def throw_def Let_def remove_whitespace_trim
  by (simp only: split: if_split prod.split) simp

text \<open>
  C9. When the \<^verbatim>\<open>username\<close> parameter is missing, or is empty once all whitespace is
  removed, \<^verbatim>\<open>lookupUser\<close> throws the 400 validation error, whatever \<^verbatim>\<open>limit\<close> and
  \<^verbatim>\<open>full\<close> are and whatever the repository would answer; the connection is returned as
  it was, so no repository query was issued.
\<close>

theorem lookupUser_empty_username:
  assumes "q_username request = None
         \<or> (\<exists>u. q_username request = Some u \<and> remove_whitespace u = [])"
  shows "lookupUser getUsersLikeUsername request c
           = (Inl (ApiError 400 ''The specified username within the query must not be empty.''), c)"
  using assms by (auto simp: lookupUser_run remove_whitespace_def)

text \<open>
  C8. When \<^verbatim>\<open>lookupUser\<close> answers: with \<^verbatim>\<open>full\<close> true the response is the matched
  users, each with every entry of \<^verbatim>\<open>connections\<close> reduced to its username and its
  lower-cased provider; with \<^verbatim>\<open>full\<close> false it is the projection to username and id,
  taken from the users after that reduction, which is exactly the username and id of
  each matched user.
\<close>

theorem lookupUser_response:
  assumes "lookupUser getUsersLikeUsername request c = (Inr response, c')"
  shows "let name = trim (remove_whitespace (case q_username request of None \<Rightarrow> [] | Some u \<Rightarrow> u));
             found = getUsersLikeUsername (store c) name
                       (parseIntWithDefault (q_limit request) 50 1 50) [''connections''];
             reduced = map (\<lambda>l. \<lparr>entity = entity l,
                              connections = map (\<lambda>a. \<lparr>account_username = account_username a,
                                                       provider = toLowerCase (provider a)\<rparr>)
                                                (connections l)\<rparr>) found
         in (parseBooleanWithDefault (q_full request) False \<longrightarrow> response = Full reduced)
          \<and> (\<not> parseBooleanWithDefault (q_full request) False \<longrightarrow>
               response = Reduced (map (\<lambda>e. \<lparr>ident_username = username (entity e),
                                             ident_id = uid (entity e)\<rparr>) reduced)
             \<and> response = Reduced (map (\<lambda>l. \<lparr>ident_username = username (entity l),
                                             ident_id = uid (entity l)\<rparr>) found))"
  using assms
  by (auto simp: lookupUser_run remove_whitespace_trim Let_def comp_def split: if_splits)


text \<open>
  A username of three spaces, with a limit and \<^verbatim>\<open>full=true\<close>.
\<close>

theorem lookupUser_empty_username_witness:
  "(\<exists>u. q_username \<lparr>q_username = Some ''   '', q_limit = Some 7, q_full = Some True\<rparr> = Some u
        \<and> remove_whitespace u = [])
   \<and> lookupUser (\<lambda>d n l r. d)
        \<lparr>q_username = Some ''   '', q_limit = Some 7, q_full = Some True\<rparr>
        \<lparr>store = [\<lparr>entity = \<lparr>uid = 1354, username = ''tehstun'', email = ''example@gmail.com'',
                             role = MODERATOR, avatarUrl = None\<rparr>,
                   connections = [\<lparr>account_username = ''tehstun'', provider = ''DISCORD''\<rparr>]\<rparr>],
         issued = [], failing = (\<lambda>n. False)\<rparr>
     = (Inl (ApiError 400 ''The specified username within the query must not be empty.''),
        \<lparr>store = [\<lparr>entity = \<lparr>uid = 1354, username = ''tehstun'', email = ''example@gmail.com'',
                             role = MODERATOR, avatarUrl = None\<rparr>,
                   connections = [\<lparr>account_username = ''tehstun'', provider = ''DISCORD''\<rparr>]\<rparr>],
         issued = [], failing = (\<lambda>n. False)\<rparr>)"
proof -
  have h: "\<exists>u. q_username \<lparr>q_username = Some ''   '', q_limit = Some 7, q_full = Some True\<rparr> = Some u
        \<and> remove_whitespace u = []"
    by (simp add: remove_whitespace_def whitespace_def)
  show ?thesis
    using h lookupUser_empty_username [OF disjI2 [OF h]] by simp
qed

text \<open>
  A lookup with \<^verbatim>\<open>full=true\<close> that matches one user with two linked accounts.
\<close>

theorem lookupUser_response_witness:
  "lookupUser (\<lambda>d n l r. d)
        \<lparr>q_username = Some '' teh '', q_limit = None, q_full = Some True\<rparr>
        \<lparr>store = [\<lparr>entity = \<lparr>uid = 1354, username = ''tehstun'', email = ''example@gmail.com'',
                             role = MODERATOR, avatarUrl = None\<rparr>,
                   connections = [\<lparr>account_username = ''tehstun'', provider = ''DISCORD''\<rparr>,
                                  \<lparr>account_username = ''mambadev'', provider = ''TWITCH''\<rparr>]\<rparr>],
         issued = [], failing = (\<lambda>n. False)\<rparr>
     = (Inr (Full [\<lparr>entity = \<lparr>uid = 1354, username = ''tehstun'', email = ''example@gmail.com'',
                             role = MODERATOR, avatarUrl = None\<rparr>,
                   connections = [\<lparr>account_username = ''tehstun'', provider = ''discord''\<rparr>,
                                  \<lparr>account_username = ''mambadev'', provider = ''twitch''\<rparr>]\<rparr>]),
        \<lparr>store = [\<lparr>entity = \<lparr>uid = 1354, username = ''tehstun'', email = ''example@gmail.com'',
                             role = MODERATOR, avatarUrl = None\<rparr>,
                   connections = [\<lparr>account_username = ''tehstun'', provider = ''DISCORD''\<rparr>,
                                  \<lparr>account_username = ''mambadev'', provider = ''TWITCH''\<rparr>]\<rparr>],
         issued = [GetUsersLikeUsername], failing = (\<lambda>n. False)\<rparr>)
   \<and> (parseBooleanWithDefault (q_full \<lparr>q_username = Some '' teh '', q_limit = None, q_full = Some True\<rparr>) False
        \<and> Full [\<lparr>entity = \<lparr>uid = 1354, username = ''tehstun'', email = ''example@gmail.com'',
                             role = MODERATOR, avatarUrl = None\<rparr>,
                   connections = [\<lparr>account_username = ''tehstun'', provider = ''discord''\<rparr>,
                                  \<lparr>account_username = ''mambadev'', provider = ''twitch''\<rparr>]\<rparr>]
          = Full (map (\<lambda>l. \<lparr>entity = entity l,
                           connections = map (\<lambda>a. \<lparr>account_username = account_username a,
                                                    provider = toLowerCase (provider a)\<rparr>)
                                             (connections l)\<rparr>)
               [\<lparr>entity = \<lparr>uid = 1354, username = ''tehstun'', email = ''example@gmail.com'',
                             role = MODERATOR, avatarUrl = None\<rparr>,
                   connections = [\<lparr>account_username = ''tehstun'', provider = ''DISCORD''\<rparr>,
                                  \<lparr>account_username = ''mambadev'', provider = ''TWITCH''\<rparr>]\<rparr>]))"
proof -
  have lc: "toLowerCase ''DISCORD'' = ''discord''" "toLowerCase ''TWITCH'' = ''twitch''"
    by code_simp+
  have ws: "remove_whitespace '' teh '' = ''teh''"
    by (simp add: remove_whitespace_def whitespace_def)
  have run: "lookupUser (\<lambda>d n l r. d)
        \<lparr>q_username = Some '' teh '', q_limit = None, q_full = Some True\<rparr>
        \<lparr>store = [\<lparr>entity = \<lparr>uid = 1354, username = ''tehstun'', email = ''example@gmail.com'',
                             role = MODERATOR, avatarUrl = None\<rparr>,
                   connections = [\<lparr>account_username = ''tehstun'', provider = ''DISCORD''\<rparr>,
                                  \<lparr>account_username = ''mambadev'', provider = ''TWITCH''\<rparr>]\<rparr>],
         issued = [], failing = (\<lambda>n. False)\<rparr>
     = (Inr (Full [\<lparr>entity = \<lparr>uid = 1354, username = ''tehstun'', email = ''example@gmail.com'',
                             role = MODERATOR, avatarUrl = None\<rparr>,
                   connections = [\<lparr>account_username = ''tehstun'', provider = ''discord''\<rparr>,
                                  \<lparr>account_username = ''mambadev'', provider = ''twitch''\<rparr>]\<rparr>]),
        \<lparr>store = [\<lparr>entity = \<lparr>uid = 1354, username = ''tehstun'', email = ''example@gmail.com'',
                             role = MODERATOR, avatarUrl = None\<rparr>,
                   connections = [\<lparr>account_username = ''tehstun'', provider = ''DISCORD''\<rparr>,
                                  \<lparr>account_username = ''mambadev'', provider = ''TWITCH''\<rparr>]\<rparr>],
         issued = [GetUsersLikeUsername], failing = (\<lambda>n. False)\<rparr>)"
    by (simp add: lookupUser_run ws lc parseBooleanWithDefault_def)
  show ?thesis
    using run lookupUser_response [OF run]
    by (simp add: Let_def parseBooleanWithDefault_def)
qed

section \<open>Update: the username conflict and the merge of the body\<close>

lemma update_run:
  "update hash request c =
     (if failing c (length (issued c))
      then (Inl QueryFailed, c\<lparr>issued := issued c @ [FindByUsername]\<rparr>)
      else if (case findByUsername (store c) (body request ''username'') of None \<Rightarrow> False
               | Some existing \<Rightarrow> existing ''id'' \<noteq> update_boundUser request ''id'')
      then (Inl (ApiError 409 ''The provided username already exists for a registered user.''),
            c\<lparr>issued := issued c @ [FindByUsername]\<rparr>)
      else if failing c (Suc (length (issued c)))
      then (Inl QueryFailed, c\<lparr>issued := issued c @ [FindByUsername, SaveUser]\<rparr>)
      else (Inr (assign (update_boundUser request)
                   (case body request ''password'' of
                      None \<Rightarrow> body request
                    | Some Null \<Rightarrow> body request
                    | Some password \<Rightarrow> (body request)(''password'' \<mapsto> hash password))),
            c\<lparr>issued := issued c @ [FindByUsername, SaveUser],
              store := save (assign (update_boundUser request)
                   (case body request ''password'' of
                      None \<Rightarrow> body request
                    | Some Null \<Rightarrow> body request
                    | Some password \<Rightarrow> (body request)(''password'' \<mapsto> hash password)))
                 (store c)\<rparr>))"
  unfolding update_def bind_def query_run call_run return_def throw_def Let_def
  by (simp only: split: if_split prod.split) simp

lemma find_unique:
  assumes "distinct (map f xs)" and "x \<in> set xs"
  shows "find (\<lambda>u. f u = f x) xs = Some x"
  using assms
proof (induction xs)
  case Nil
  then show ?case by simp
next
  case (Cons a xs)
  then show ?case by (cases "a = x") (auto simp: image_iff)
qed

lemma findByUsername_unique:
  assumes "distinct (map (\<lambda>u. u ''username'') us)" and "u \<in> set us"
      and "\<not> isNil (u ''username'')"
  shows "findByUsername us (u ''username'') = Some u"
  using assms find_unique [of "\<lambda>u. u ''username''" us u]
  by (simp add: findByUsername_def)

text \<open>
  C7. With usernames unique among the stored users and the lookup answered: if the body's
  username belongs to a stored user whose id is not the bound user's, \<^verbatim>\<open>update\<close> throws the
  409 conflict and the store is as it was; if it is the bound user's own current
  username, and the save is answered, there is no conflict and \<^verbatim>\<open>update\<close> responds
  with the user.
\<close>

theorem update_username_conflict:
  assumes "distinct (map (\<lambda>u. u ''username'') (store c))"
      and "\<not> isNil (body request ''username'')"
      and "\<not> failing c (length (issued c))"
  shows "((\<exists>u \<in> set (store c). u ''username'' = body request ''username''
              \<and> u ''id'' \<noteq> update_boundUser request ''id'')
          \<longrightarrow> update hash request c
              = (Inl (ApiError 409 ''The provided username already exists for a registered user.''),
                 c\<lparr>issued := issued c @ [FindByUsername]\<rparr>))
       \<and> (update_boundUser request \<in> set (store c)
            \<and> body request ''username'' = update_boundUser request ''username''
            \<and> \<not> failing c (Suc (length (issued c)))
          \<longrightarrow> (\<exists>e c'. update hash request c = (Inr e, c')
                \<and> e ''username'' = update_boundUser request ''username''))"
proof (intro conjI impI)
  assume "\<exists>u \<in> set (store c). u ''username'' = body request ''username''
              \<and> u ''id'' \<noteq> update_boundUser request ''id''"
  then obtain u where u: "u \<in> set (store c)" "u ''username'' = body request ''username''"
      "u ''id'' \<noteq> update_boundUser request ''id''"
    by blast
  have "findByUsername (store c) (body request ''username'') = Some u"
    using findByUsername_unique [OF assms(1) u(1)] assms(2) u(2) by simp
  then show "update hash request c
              = (Inl (ApiError 409 ''The provided username already exists for a registered user.''),
                 c\<lparr>issued := issued c @ [FindByUsername]\<rparr>)"
    using assms(3) u(3) by (simp add: update_run)
next
  assume own: "update_boundUser request \<in> set (store c)
            \<and> body request ''username'' = update_boundUser request ''username''
            \<and> \<not> failing c (Suc (length (issued c)))"
  have "findByUsername (store c) (body request ''username'') = Some (update_boundUser request)"
    using findByUsername_unique [OF assms(1), of "update_boundUser request"] assms(2) own by simp
  moreover have "assign (update_boundUser request)
                   (case body request ''password'' of
                      None \<Rightarrow> body request
                    | Some Null \<Rightarrow> body request
                    | Some password \<Rightarrow> (body request)(''password'' \<mapsto> hash password)) ''username''
                 = update_boundUser request ''username''"
    using own assms(2)
    by (auto simp: assign_def map_add_def isNil_def split: option.splits jsval.splits)
  ultimately show "\<exists>e c'. update hash request c = (Inr e, c')
                \<and> e ''username'' = update_boundUser request ''username''"
    using assms(3) own by (simp add: update_run)
qed

text \<open>
  C10. When \<^verbatim>\<open>update\<close> answers, the entity it saved and sent has, under every property
  name whatever, the value the body gives it, and the bound user's own value where the
  body has none; the one value that is changed on the way is a \<^verbatim>\<open>password\<close> that is not
  null, which is hashed.
\<close>

theorem update_merges_body:
  assumes "update hash request c = (Inr e, c')"
  shows "(\<forall>k. e k = (case body request k of
                      None \<Rightarrow> update_boundUser request k
                    | Some v \<Rightarrow> if k = ''password'' \<and> v \<noteq> Null then Some (hash v) else Some v))
       \<and> store c' = save e (store c)"
proof -
  have e: "e = assign (update_boundUser request)
                   (case body request ''password'' of
                      None \<Rightarrow> body request
                    | Some Null \<Rightarrow> body request
                    | Some password \<Rightarrow> (body request)(''password'' \<mapsto> hash password))"
    and s: "store c' = save e (store c)"
    using assms by (auto simp: update_run split: if_splits)
  have "e k = (case body request k of
                      None \<Rightarrow> update_boundUser request k
                    | Some v \<Rightarrow> if k = ''password'' \<and> v \<noteq> Null then Some (hash v) else Some v)" for k
    unfolding e by (auto simp: assign_def map_add_def split: option.splits jsval.splits)
  then show ?thesis using s by blast
qed


text \<open>
  Two stored users; the second asks for the first one's username, then for its own.
\<close>

theorem update_username_conflict_witness:
  "distinct (map (\<lambda>u. u ''username'') (store 
     \<lparr>store = [[''id'' \<mapsto> Num 1, ''username'' \<mapsto> Str ''test-admin'', ''email'' \<mapsto> Str ''test-admin@example.com''],
               [''id'' \<mapsto> Num 2, ''username'' \<mapsto> Str ''tehstun'', ''email'' \<mapsto> Str ''example@gmail.com'']],
      issued = [], failing = (\<lambda>n. False)\<rparr>))
   \<and> update (\<lambda>v. Str ''$2b$'')
     
     \<lparr>update_boundUser = [''id'' \<mapsto> Num 2, ''username'' \<mapsto> Str ''tehstun'', ''email'' \<mapsto> Str ''example@gmail.com''],
      body = [''username'' \<mapsto> Str ''test-admin'']\<rparr>
     
     \<lparr>store = [[''id'' \<mapsto> Num 1, ''username'' \<mapsto> Str ''test-admin'', ''email'' \<mapsto> Str ''test-admin@example.com''],
               [''id'' \<mapsto> Num 2, ''username'' \<mapsto> Str ''tehstun'', ''email'' \<mapsto> Str ''example@gmail.com'']],
      issued = [], failing = (\<lambda>n. False)\<rparr>
     = (Inl (ApiError 409 ''The provided username already exists for a registered user.''),
        
     \<lparr>store = [[''id'' \<mapsto> Num 1, ''username'' \<mapsto> Str ''test-admin'', ''email'' \<mapsto> Str ''test-admin@example.com''],
               [''id'' \<mapsto> Num 2, ''username'' \<mapsto> Str ''tehstun'', ''email'' \<mapsto> Str ''example@gmail.com'']],
      issued = [], failing = (\<lambda>n. False)\<rparr>\<lparr>issued := [FindByUsername]\<rparr>)
   \<and> (\<exists>e c'. update (\<lambda>v. Str ''$2b$'')
     
     \<lparr>update_boundUser = [''id'' \<mapsto> Num 2, ''username'' \<mapsto> Str ''tehstun'', ''email'' \<mapsto> Str ''example@gmail.com''],
      body = [''username'' \<mapsto> Str ''tehstun'']\<rparr>
     
     \<lparr>store = [[''id'' \<mapsto> Num 1, ''username'' \<mapsto> Str ''test-admin'', ''email'' \<mapsto> Str ''test-admin@example.com''],
               [''id'' \<mapsto> Num 2, ''username'' \<mapsto> Str ''tehstun'', ''email'' \<mapsto> Str ''example@gmail.com'']],
      issued = [], failing = (\<lambda>n. False)\<rparr> = (Inr e, c') \<and> e ''username'' = Some (Str ''tehstun''))"
proof -
  have d: "distinct (map (\<lambda>u. u ''username'') (store 
     \<lparr>store = [[''id'' \<mapsto> Num 1, ''username'' \<mapsto> Str ''test-admin'', ''email'' \<mapsto> Str ''test-admin@example.com''],
               [''id'' \<mapsto> Num 2, ''username'' \<mapsto> Str ''tehstun'', ''email'' \<mapsto> Str ''example@gmail.com'']],
      issued = [], failing = (\<lambda>n. False)\<rparr>))"
    by simp
  have n1: "\<not> isNil (body 
     \<lparr>update_boundUser = [''id'' \<mapsto> Num 2, ''username'' \<mapsto> Str ''tehstun'', ''email'' \<mapsto> Str ''example@gmail.com''],
      body = [''username'' \<mapsto> Str ''test-admin'']\<rparr> ''username'')"
   and n2: "\<not> isNil (body 
     \<lparr>update_boundUser = [''id'' \<mapsto> Num 2, ''username'' \<mapsto> Str ''tehstun'', ''email'' \<mapsto> Str ''example@gmail.com''],
      body = [''username'' \<mapsto> Str ''tehstun'']\<rparr> ''username'')"
    by (simp_all add: isNil_def)
  have f: "\<not> failing 
     \<lparr>store = [[''id'' \<mapsto> Num 1, ''username'' \<mapsto> Str ''test-admin'', ''email'' \<mapsto> Str ''test-admin@example.com''],
               [''id'' \<mapsto> Num 2, ''username'' \<mapsto> Str ''tehstun'', ''email'' \<mapsto> Str ''example@gmail.com'']],
      issued = [], failing = (\<lambda>n. False)\<rparr> (length (issued 
     \<lparr>store = [[''id'' \<mapsto> Num 1, ''username'' \<mapsto> Str ''test-admin'', ''email'' \<mapsto> Str ''test-admin@example.com''],
               [''id'' \<mapsto> Num 2, ''username'' \<mapsto> Str ''tehstun'', ''email'' \<mapsto> Str ''example@gmail.com'']],
      issued = [], failing = (\<lambda>n. False)\<rparr>))"
    by simp
  show ?thesis
    using d update_username_conflict [OF d n1 f, of "(\<lambda>v. Str ''$2b$'')"]
      update_username_conflict [OF d n2 f, of "(\<lambda>v. Str ''$2b$'')"]
    by simp
qed

text \<open>
  A body with a password and with a property \<^verbatim>\<open>verified\<close> that the handler's
  documentation does not list.
\<close>

theorem update_merges_body_witness:
  "update (\<lambda>v. Str ''$2b$'')
     
     \<lparr>update_boundUser = [''id'' \<mapsto> Num 2, ''username'' \<mapsto> Str ''tehstun'', ''email'' \<mapsto> Str ''example@gmail.com''],
      body = [''password'' \<mapsto> Str ''secret'', ''verified'' \<mapsto> Bool True]\<rparr>
     
     \<lparr>store = [[''id'' \<mapsto> Num 1, ''username'' \<mapsto> Str ''test-admin'', ''email'' \<mapsto> Str ''test-admin@example.com''],
               [''id'' \<mapsto> Num 2, ''username'' \<mapsto> Str ''tehstun'', ''email'' \<mapsto> Str ''example@gmail.com'']],
      issued = [], failing = (\<lambda>n. False)\<rparr>
   = (Inr (assign (update_boundUser 
     \<lparr>update_boundUser = [''id'' \<mapsto> Num 2, ''username'' \<mapsto> Str ''tehstun'', ''email'' \<mapsto> Str ''example@gmail.com''],
      body = [''password'' \<mapsto> Str ''secret'', ''verified'' \<mapsto> Bool True]\<rparr>) ((body 
     \<lparr>update_boundUser = [''id'' \<mapsto> Num 2, ''username'' \<mapsto> Str ''tehstun'', ''email'' \<mapsto> Str ''example@gmail.com''],
      body = [''password'' \<mapsto> Str ''secret'', ''verified'' \<mapsto> Bool True]\<rparr>)(''password'' \<mapsto> Str ''$2b$''))),
      
     \<lparr>store = [[''id'' \<mapsto> Num 1, ''username'' \<mapsto> Str ''test-admin'', ''email'' \<mapsto> Str ''test-admin@example.com''],
               [''id'' \<mapsto> Num 2, ''username'' \<mapsto> Str ''tehstun'', ''email'' \<mapsto> Str ''example@gmail.com'']],
      issued = [], failing = (\<lambda>n. False)\<rparr>\<lparr>issued := [FindByUsername, SaveUser],
         store := save (assign (update_boundUser 
     \<lparr>update_boundUser = [''id'' \<mapsto> Num 2, ''username'' \<mapsto> Str ''tehstun'', ''email'' \<mapsto> Str ''example@gmail.com''],
      body = [''password'' \<mapsto> Str ''secret'', ''verified'' \<mapsto> Bool True]\<rparr>) ((body 
     \<lparr>update_boundUser = [''id'' \<mapsto> Num 2, ''username'' \<mapsto> Str ''tehstun'', ''email'' \<mapsto> Str ''example@gmail.com''],
      body = [''password'' \<mapsto> Str ''secret'', ''verified'' \<mapsto> Bool True]\<rparr>)(''password'' \<mapsto> Str ''$2b$'')))
                    (store 
     \<lparr>store = [[''id'' \<mapsto> Num 1, ''username'' \<mapsto> Str ''test-admin'', ''email'' \<mapsto> Str ''test-admin@example.com''],
               [''id'' \<mapsto> Num 2, ''username'' \<mapsto> Str ''tehstun'', ''email'' \<mapsto> Str ''example@gmail.com'']],
      issued = [], failing = (\<lambda>n. False)\<rparr>)\<rparr>)
   \<and> map (assign (update_boundUser 
     \<lparr>update_boundUser = [''id'' \<mapsto> Num 2, ''username'' \<mapsto> Str ''tehstun'', ''email'' \<mapsto> Str ''example@gmail.com''],
      body = [''password'' \<mapsto> Str ''secret'', ''verified'' \<mapsto> Bool True]\<rparr>) ((body 
     \<lparr>update_boundUser = [''id'' \<mapsto> Num 2, ''username'' \<mapsto> Str ''tehstun'', ''email'' \<mapsto> Str ''example@gmail.com''],
      body = [''password'' \<mapsto> Str ''secret'', ''verified'' \<mapsto> Bool True]\<rparr>)(''password'' \<mapsto> Str ''$2b$'')))
         [''id'', ''username'', ''email'', ''password'', ''verified'', ''token'']
     = [Some (Num 2), Some (Str ''tehstun''), Some (Str ''example@gmail.com''),
        Some (Str ''$2b$''), Some (Bool True), None]"
proof -
  have run: "update (\<lambda>v. Str ''$2b$'')
     
     \<lparr>update_boundUser = [''id'' \<mapsto> Num 2, ''username'' \<mapsto> Str ''tehstun'', ''email'' \<mapsto> Str ''example@gmail.com''],
      body = [''password'' \<mapsto> Str ''secret'', ''verified'' \<mapsto> Bool True]\<rparr>
     
     \<lparr>store = [[''id'' \<mapsto> Num 1, ''username'' \<mapsto> Str ''test-admin'', ''email'' \<mapsto> Str ''test-admin@example.com''],
               [''id'' \<mapsto> Num 2, ''username'' \<mapsto> Str ''tehstun'', ''email'' \<mapsto> Str ''example@gmail.com'']],
      issued = [], failing = (\<lambda>n. False)\<rparr>
   = (Inr (assign (update_boundUser 
     \<lparr>update_boundUser = [''id'' \<mapsto> Num 2, ''username'' \<mapsto> Str ''tehstun'', ''email'' \<mapsto> Str ''example@gmail.com''],
      body = [''password'' \<mapsto> Str ''secret'', ''verified'' \<mapsto> Bool True]\<rparr>) ((body 
     \<lparr>update_boundUser = [''id'' \<mapsto> Num 2, ''username'' \<mapsto> Str ''tehstun'', ''email'' \<mapsto> Str ''example@gmail.com''],
      body = [''password'' \<mapsto> Str ''secret'', ''verified'' \<mapsto> Bool True]\<rparr>)(''password'' \<mapsto> Str ''$2b$''))),
      
     \<lparr>store = [[''id'' \<mapsto> Num 1, ''username'' \<mapsto> Str ''test-admin'', ''email'' \<mapsto> Str ''test-admin@example.com''],
               [''id'' \<mapsto> Num 2, ''username'' \<mapsto> Str ''tehstun'', ''email'' \<mapsto> Str ''example@gmail.com'']],
      issued = [], failing = (\<lambda>n. False)\<rparr>\<lparr>issued := [FindByUsername, SaveUser],
         store := save (assign (update_boundUser 
     \<lparr>update_boundUser = [''id'' \<mapsto> Num 2, ''username'' \<mapsto> Str ''tehstun'', ''email'' \<mapsto> Str ''example@gmail.com''],
      body = [''password'' \<mapsto> Str ''secret'', ''verified'' \<mapsto> Bool True]\<rparr>) ((body 
     \<lparr>update_boundUser = [''id'' \<mapsto> Num 2, ''username'' \<mapsto> Str ''tehstun'', ''email'' \<mapsto> Str ''example@gmail.com''],
      body = [''password'' \<mapsto> Str ''secret'', ''verified'' \<mapsto> Bool True]\<rparr>)(''password'' \<mapsto> Str ''$2b$'')))
                    (store 
     \<lparr>store = [[''id'' \<mapsto> Num 1, ''username'' \<mapsto> Str ''test-admin'', ''email'' \<mapsto> Str ''test-admin@example.com''],
               [''id'' \<mapsto> Num 2, ''username'' \<mapsto> Str ''tehstun'', ''email'' \<mapsto> Str ''example@gmail.com'']],
      issued = [], failing = (\<lambda>n. False)\<rparr>)\<rparr>)"
    by (simp add: update_run findByUsername_def isNil_def)
  show ?thesis
    using run update_merges_body [OF run]
    by simp
qed

section \<open>Removing a user: runs that succeed\<close>

lemma bind_Inr:
  assumes "bind m f c = (Inr y, c'')"
  obtains x c' where "m c = (Inr x, c')" and "f x c' = (Inr y, c'')"
  using assms by (auto simp: bind_def split: prod.splits sum.splits)

lemma call_Inr:
  assumes "call l f c = (Inr x, c')"
  shows "\<not> failing c (length (issued c))"
    and "x = fst (f (store c))"
    and "c' = c\<lparr>issued := issued c @ [l], store := snd (f (store c))\<rparr>"
  using assms by (auto simp: call_run split: if_splits)

lemma purge_Inr:
  assumes "purge e u c = (Inr x, c')"
  shows "\<not> failing c (length (issued c))"
    and "\<not> failing c (Suc (length (issued c)))"
    and "c' = c\<lparr>issued := issued c @ [Find e, Remove e],
               store := remove_rows e (find_rows e u (store c)) (store c)\<rparr>"
  using assms
  by (auto simp: purge_def bind_def query_run call_run split: if_splits prod.splits sum.splits)

lemma sequence_purges_Inr:
  assumes "sequence (map (\<lambda>e. purge e u) es @ rest) c = (Inr x, c')"
  shows "(\<forall>n. length (issued c) \<le> n \<and> n < length (issued c) + 2 * length es \<longrightarrow> \<not> failing c n)
       \<and> sequence rest
            (c\<lparr>issued := issued c @ concat (map (\<lambda>e. [Find e, Remove e]) es),
               store := fold (\<lambda>e d. remove_rows e (find_rows e u d) d) es (store c)\<rparr>)
          = (Inr x, c')"
  using assms
proof (induction es arbitrary: c)
  case Nil
  then show ?case by auto
next
  case (Cons e es)
  from Cons.prems obtain y c1 where p: "purge e u c = (Inr y, c1)"
    and r: "sequence (map (\<lambda>e. purge e u) es @ rest) c1 = (Inr x, c')"
    by (auto elim: bind_Inr)
  note c1 = purge_Inr [OF p]
  from Cons.IH [OF r] have
    a: "\<forall>n. length (issued c1) \<le> n \<and> n < length (issued c1) + 2 * length es \<longrightarrow> \<not> failing c1 n"
    and b: "sequence rest
            (c1\<lparr>issued := issued c1 @ concat (map (\<lambda>e. [Find e, Remove e]) es),
               store := fold (\<lambda>e d. remove_rows e (find_rows e u d) d) es (store c1)\<rparr>)
          = (Inr x, c')"
    by blast+
  have "\<not> failing c n" if "length (issued c) \<le> n" "n < length (issued c) + 2 * length (e # es)" for n
  proof (cases "n < length (issued c) + 2")
    case True
    then have "n = length (issued c) \<or> n = Suc (length (issued c))" using that by arith
    then show ?thesis using c1(1,2) by auto
  next
    case False
    then have "length (issued c1) \<le> n \<and> n < length (issued c1) + 2 * length es"
      using that by (simp add: c1(3))
    then have "\<not> failing c1 n" using a by blast
    then show ?thesis by (simp add: c1(3))
  qed
  moreover have "sequence rest
            (c\<lparr>issued := issued c @ concat (map (\<lambda>e. [Find e, Remove e]) (e # es)),
               store := fold (\<lambda>e d. remove_rows e (find_rows e u d) d) (e # es) (store c)\<rparr>)
          = (Inr x, c')"
    using b by (simp add: c1(3))
  ultimately show ?case by blast
qed

lemma game_id_replace_player: "replace_player i g = Some g' \<Longrightarrow> game_id g' = game_id g"
  by (auto simp: replace_player_def split: option.splits)

lemma has_player_replace: "has_player i = (\<lambda>g. replace_player i g \<noteq> None)"
  by (rule ext) (auto simp: has_player_def replace_player_def split: option.splits)

lemma patch_games_Inr:
  assumes "patch_games i ts c = (Inr x, c')"
  shows "(\<forall>n. length (issued c) \<le> n \<and> n < length (issued c') \<longrightarrow> \<not> failing c n)
       \<and> c' = c\<lparr>issued := issued c @ map (\<lambda>g. SaveGame (game_id g)) (filter (has_player i) ts),
                 store := fold (\<lambda>t d. case replace_player i t of None \<Rightarrow> d
                                        | Some t' \<Rightarrow> save_game t' d) ts (store c)\<rparr>"
  using assms
proof (induction ts arbitrary: c)
  case Nil
  then show ?case by (auto simp: return_def)
next
  case (Cons t ts)
  show ?case
  proof (cases "replace_player i t")
    case None
    then have "patch_games i ts c = (Inr x, c')" using Cons.prems by simp
    from Cons.IH [OF this] show ?thesis
      using None by (simp add: has_player_replace)
  next
    case (Some t')
    then obtain y c1 where s: "call (SaveGame (game_id t')) (\<lambda>d. ((), save_game t' d)) c = (Inr y, c1)"
      and r: "patch_games i ts c1 = (Inr x, c')"
      using Cons.prems by (auto elim: bind_Inr)
    note c1 = call_Inr [OF s]
    note ih = Cons.IH [OF r]
    have id: "game_id t' = game_id t" using Some by (rule game_id_replace_player)
    have "\<not> failing c n" if "length (issued c) \<le> n" "n < length (issued c')" for n
    proof (cases "n = length (issued c)")
      case True
      then show ?thesis using c1(1) by simp
    next
      case False
      then have "length (issued c1) \<le> n" using that by (simp add: c1(3))
      then have "\<not> failing c1 n" using ih that by blast
      then show ?thesis by (simp add: c1(3))
    qed
    moreover have "c' = c\<lparr>issued := issued c @ map (\<lambda>g. SaveGame (game_id g)) (filter (has_player i) (t # ts)),
                 store := fold (\<lambda>t d. case replace_player i t of None \<Rightarrow> d
                                        | Some t' \<Rightarrow> save_game t' d) (t # ts) (store c)\<rparr>"
      using ih Some id by (simp add: c1(3) has_player_replace)
    ultimately show ?thesis by blast
  qed
qed


lemma fold_purge_users_games:
  "users (fold (\<lambda>e d. remove_rows e (find_rows e u d) d) es d) = users d
   \<and> games (fold (\<lambda>e d. remove_rows e (find_rows e u d) d) es d) = games d"
  by (induction es arbitrary: d) (simp_all add: remove_rows_def)

lemma fold_purge_rows:
  "rows (fold (\<lambda>e d. remove_rows e (find_rows e u d) d) es d) e
     = (if e \<in> set es
        then filter (\<lambda>r. row_id r \<notin> row_id ` {r \<in> set (rows d e). row_user r = uid u}) (rows d e)
        else rows d e)"
proof (induction es arbitrary: d)
  case Nil
  then show ?case by simp
next
  case (Cons a es)
  have once: "rows (remove_rows a (find_rows a u d) d) a
     = filter (\<lambda>r. row_id r \<notin> row_id ` {r \<in> set (rows d a). row_user r = uid u}) (rows d a)"
    by (simp add: remove_rows_def find_rows_def)
  have other: "e \<noteq> a \<Longrightarrow> rows (remove_rows a (find_rows a u d) d) e = rows d e"
    by (simp add: remove_rows_def)
  have again: "filter (\<lambda>r. row_id r \<notin> row_id ` {r \<in> set (filter P xs). row_user r = uid u}) (filter P xs)
     = filter P xs"
    if "P = (\<lambda>r. row_id r \<notin> row_id ` {r \<in> set xs. row_user r = uid u})" for P xs
  proof -
    have "row_id r \<notin> row_id ` {r \<in> set (filter P xs). row_user r = uid u}"
      if "r \<in> set (filter P xs)" for r
    proof
      assume "row_id r \<in> row_id ` {r \<in> set (filter P xs). row_user r = uid u}"
      then obtain q where q: "q \<in> set xs" "P q" "row_user q = uid u" "row_id q = row_id r"
        by auto
      then have "row_id q \<in> row_id ` {r \<in> set xs. row_user r = uid u}" by blast
      then show False using q(2) \<open>P = _\<close> by simp
    qed
    then have "\<forall>r \<in> set (filter P xs).
                 row_id r \<notin> row_id ` {r \<in> set (filter P xs). row_user r = uid u}"
      by blast
    then show ?thesis by (simp only: filter_id_conv)
  qed
  show ?case
  proof (cases "e = a")
    case True
    then show ?thesis
      using Cons.IH [of "remove_rows a (find_rows a u d) d"] once again [OF refl, of "rows d a"]
      by simp
  next
    case False
    then show ?thesis
      using Cons.IH [of "remove_rows a (find_rows a u d) d"] other by simp
  qed
qed

lemma fold_save_users_rows:
  "users (fold (\<lambda>t d. case replace_player i t of None \<Rightarrow> d | Some t' \<Rightarrow> save_game t' d) ts d) = users d
   \<and> rows (fold (\<lambda>t d. case replace_player i t of None \<Rightarrow> d | Some t' \<Rightarrow> save_game t' d) ts d) = rows d"
  by (induction ts arbitrary: d) (simp_all add: save_game_def split: option.splits)

lemma fold_save_games_cong:
  assumes "games d = games d'"
  shows "games (fold (\<lambda>t d. case replace_player i t of None \<Rightarrow> d | Some t' \<Rightarrow> save_game t' d) ts d)
   = games (fold (\<lambda>t d. case replace_player i t of None \<Rightarrow> d | Some t' \<Rightarrow> save_game t' d) ts d')"
  using assms
proof (induction ts arbitrary: d d')
  case Nil
  then show ?case by simp
next
  case (Cons t ts)
  show ?case
  proof (cases "replace_player i t")
    case None
    then show ?thesis using Cons.IH [OF Cons.prems] by simp
  next
    case (Some t')
    have "games (save_game t' d) = games (save_game t' d')"
      using Cons.prems by (simp add: save_game_def)
    from Cons.IH [OF this] show ?thesis using Some by simp
  qed
qed

lemma cascade_Inr:
  assumes "cascade u c = (Inr x, c')"
  shows "(\<forall>n. length (issued c) \<le> n \<and> n < length (issued c') \<longrightarrow> \<not> failing c n)
       \<and> failing c' = failing c
       \<and> issued c' = issued c
            @ [Find Activity, Remove Activity, Find UserProfile, Remove UserProfile,
               Find EmailOptIn, Remove EmailOptIn, Find UserStats, Remove UserStats,
               Find UserGameStats, Remove UserGameStats, Find LinkedAccount, Remove LinkedAccount,
               Find PasswordReset, Remove PasswordReset, Find EmailVerification, Remove EmailVerification,
               Find GameApplication, Remove GameApplication, SelectGames]
            @ map (\<lambda>g. SaveGame (game_id g)) (select_games (uid u) (store c))
            @ [RemoveUser (uid u)]
       \<and> users (store c') = filter (\<lambda>x. uid x \<noteq> uid u) (users (store c))
       \<and> (\<forall>e. rows (store c') e
              = filter (\<lambda>r. row_id r \<notin> row_id ` {r \<in> set (rows (store c) e). row_user r = uid u})
                  (rows (store c) e))
       \<and> games (store c')
           = games (fold (\<lambda>t d. case replace_player (uid u) t of None \<Rightarrow> d
                                 | Some t' \<Rightarrow> save_game t' d)
                      (select_games (uid u) (store c)) (store c))"
proof -
  define es where "es = [Activity, UserProfile, EmailOptIn, UserStats, UserGameStats,
                         LinkedAccount, PasswordReset, EmailVerification, GameApplication]"
  define d9 where "d9 = fold (\<lambda>e d. remove_rows e (find_rows e u d) d) es (store c)"
  define c9 where "c9 = c\<lparr>issued := issued c @ concat (map (\<lambda>e. [Find e, Remove e]) es), store := d9\<rparr>"
  define rest where "rest = [bind (query SelectGames (select_games (uid u)))
          (\<lambda>userRelatedGames. patch_games (uid u) userRelatedGames),
        call (RemoveUser (uid u)) (\<lambda>d. ((), remove_user u d))]"
  have all_es: "e \<in> set es" for e
    by (cases e) (simp_all add: es_def)
  have "cascade u = sequence (map (\<lambda>e. purge e u) es @ rest)"
    by (simp add: cascade_def es_def rest_def)
  with assms have "sequence (map (\<lambda>e. purge e u) es @ rest) c = (Inr x, c')"
    by simp
  from sequence_purges_Inr [OF this]
  have a9: "\<forall>n. length (issued c) \<le> n \<and> n < length (issued c) + 2 * length es \<longrightarrow> \<not> failing c n"
    and r: "sequence rest c9 = (Inr x, c')"
    by (simp_all add: c9_def d9_def)
  have len9: "length (issued c9) = length (issued c) + 2 * length es"
    by (simp add: c9_def es_def)
  from r obtain y1 c10 where
    sp: "bind (query SelectGames (select_games (uid u)))
          (\<lambda>userRelatedGames. patch_games (uid u) userRelatedGames) c9 = (Inr y1, c10)"
    and r2: "bind (call (RemoveUser (uid u)) (\<lambda>d. ((), remove_user u d))) (\<lambda>_. return ()) c10 = (Inr x, c')"
    by (auto simp: rest_def elim: bind_Inr)
  from sp obtain gs cq where
    q: "query SelectGames (select_games (uid u)) c9 = (Inr gs, cq)"
    and p: "patch_games (uid u) gs cq = (Inr y1, c10)"
    by (auto elim: bind_Inr)
  have q1: "\<not> failing c9 (length (issued c9))"
    and q2: "gs = select_games (uid u) d9"
    and q3: "cq = c9\<lparr>issued := issued c9 @ [SelectGames]\<rparr>"
    using q by (auto simp: query_run c9_def split: if_splits)
  note p1 = patch_games_Inr [OF p]
  from r2 obtain y2 c11 where
    ru: "call (RemoveUser (uid u)) (\<lambda>d. ((), remove_user u d)) c10 = (Inr y2, c11)"
    and "return () c11 = (Inr x, c')"
    by (auto elim: bind_Inr)
  then have c11: "c' = c11" by (simp add: return_def)
  note ru1 = call_Inr [OF ru]
  have sel: "select_games (uid u) d9 = select_games (uid u) (store c)"
    by (simp add: select_games_def d9_def fold_purge_users_games)
  have c10: "c10 = cq\<lparr>issued := issued cq @ map (\<lambda>g. SaveGame (game_id g)) (select_games (uid u) (store c)),
                 store := fold (\<lambda>t d. case replace_player (uid u) t of None \<Rightarrow> d
                                        | Some t' \<Rightarrow> save_game t' d) gs (store cq)\<rparr>"
    using p1 q2 sel by (simp add: select_games_def)
  have fl: "failing c9 = failing c" "failing cq = failing c" "failing c10 = failing c" "failing c' = failing c"
    by (simp_all add: c9_def q3 c10 c11 ru1(3))
  have iss: "issued c' = issued c @ concat (map (\<lambda>e. [Find e, Remove e]) es) @ [SelectGames]
            @ map (\<lambda>g. SaveGame (game_id g)) (select_games (uid u) (store c))
            @ [RemoveUser (uid u)]"
    by (simp add: c11 ru1(3) c10 q3 c9_def)
  have st: "store c' = remove_user u (fold (\<lambda>t d. case replace_player (uid u) t of None \<Rightarrow> d
                                        | Some t' \<Rightarrow> save_game t' d)
                      (select_games (uid u) (store c)) d9)"
    by (simp add: c11 ru1(3) c10 q3 c9_def q2 sel)
  have ans: "\<not> failing c n" if lo: "length (issued c) \<le> n" and hi: "n < length (issued c')" for n
  proof -
    have l1: "length (issued cq) = Suc (length (issued c9))"
      by (simp add: q3)
    have l2: "length (issued c') = Suc (length (issued c10))"
      by (simp add: c11 ru1(3))
    consider "n < length (issued c9)" | "n = length (issued c9)"
      | "length (issued cq) \<le> n \<and> n < length (issued c10)" | "n = length (issued c10)"
      using hi l1 l2 by linarith
    then show ?thesis
    proof cases
      case 1
      then show ?thesis using a9 lo len9 by simp
    next
      case 2
      then show ?thesis using q1 fl by simp
    next
      case 3
      then show ?thesis using p1 fl by auto
    next
      case 4
      then show ?thesis using ru1(1) fl by simp
    qed
  qed
  have us: "users (store c') = filter (\<lambda>x. uid x \<noteq> uid u) (users (store c))"
    by (simp add: st remove_user_def fold_save_users_rows d9_def fold_purge_users_games)
  have rw: "rows (store c') e
              = filter (\<lambda>r. row_id r \<notin> row_id ` {r \<in> set (rows (store c) e). row_user r = uid u})
                  (rows (store c) e)" for e
    using all_es [of e]
    by (simp add: st remove_user_def fold_save_users_rows d9_def fold_purge_rows)
  have gm: "games (store c')
           = games (fold (\<lambda>t d. case replace_player (uid u) t of None \<Rightarrow> d
                                 | Some t' \<Rightarrow> save_game t' d)
                      (select_games (uid u) (store c)) (store c))"
    using fold_save_games_cong [of d9 "store c" "uid u" "select_games (uid u) (store c)"]
    by (simp add: st remove_user_def d9_def fold_purge_users_games)
  show ?thesis
    using ans fl(4) iss us rw gm by (simp add: es_def)
qed

lemma fold_save_games_inv:
  assumes dist: "distinct (map game_id gs0)"
      and patch: "\<And>g. patch g = (case replace_player i g of None \<Rightarrow> g | Some g' \<Rightarrow> g')"
      and sub: "set ts \<subseteq> set gs0"
      and inv: "games d = map (\<lambda>g. if g \<in> S then patch g else g) gs0"
  shows "games (fold (\<lambda>t d. case replace_player i t of None \<Rightarrow> d | Some t' \<Rightarrow> save_game t' d) ts d)
           = map (\<lambda>g. if g \<in> S \<union> set ts then patch g else g) gs0"
  using sub inv
proof (induction ts arbitrary: d S)
  case Nil
  then show ?case by simp
next
  case (Cons t ts)
  have t_in: "t \<in> set gs0" and ts_in: "set ts \<subseteq> set gs0"
    using Cons.prems(1) by auto
  have id_patch: "game_id (patch g) = game_id g" for g
    by (auto simp: patch dest: game_id_replace_player split: option.splits)
  have same: "g = t" if "g \<in> set gs0" "game_id g = game_id t" for g
    using dist that t_in by (meson distinct_map inj_onD)
  show ?case
  proof (cases "replace_player i t")
    case None
    then have pt: "patch t = t" by (simp add: patch)
    have "games d = map (\<lambda>g. if g \<in> insert t S then patch g else g) gs0"
      using Cons.prems(2) pt by (auto intro!: map_cong)
    from Cons.IH [OF ts_in this] show ?thesis using None by simp
  next
    case (Some t')
    then have pt: "patch t = t'" by (simp add: patch)
    have idt: "game_id t' = game_id t" using Some by (rule game_id_replace_player)
    have "(\<lambda>g. if g \<in> S then patch g else g) t \<in> set (games d)"
      unfolding Cons.prems(2) set_map using t_in by (rule imageI)
    moreover have "game_id ((\<lambda>g. if g \<in> S then patch g else g) t) = game_id t'"
      using idt id_patch by simp
    ultimately have ex: "\<exists>x \<in> set (games d). game_id x = game_id t'"
      by blast
    have "games (save_game t' d) = map (\<lambda>g. if g \<in> insert t S then patch g else g) gs0"
    proof -
      have "games (save_game t' d) = map (\<lambda>x. if game_id x = game_id t' then t' else x) (games d)"
        using ex by (simp add: save_game_def)
      also have "\<dots> = map (\<lambda>g. if g \<in> insert t S then patch g else g) gs0"
        unfolding Cons.prems(2) map_map comp_def
      proof (rule map_cong [OF refl])
        fix g assume g: "g \<in> set gs0"
        show "(if game_id (if g \<in> S then patch g else g) = game_id t' then t'
               else if g \<in> S then patch g else g)
            = (if g \<in> insert t S then patch g else g)"
        proof (cases "g = t")
          case True
          then show ?thesis using idt id_patch pt by simp
        next
          case False
          then have "game_id g \<noteq> game_id t" using same [OF g] by blast
          then show ?thesis using False idt id_patch by simp
        qed
      qed
      finally show ?thesis .
    qed
    from Cons.IH [OF ts_in this] show ?thesis using Some by simp
  qed
qed

lemma fold_save_games_map:
  assumes "distinct (map game_id (games d))"
  shows "games (fold (\<lambda>t d. case replace_player i t of None \<Rightarrow> d | Some t' \<Rightarrow> save_game t' d)
                  (select_games i d) d)
           = map (\<lambda>g. case replace_player i g of None \<Rightarrow> g | Some g' \<Rightarrow> g') (games d)"
proof -
  have "games (fold (\<lambda>t d. case replace_player i t of None \<Rightarrow> d | Some t' \<Rightarrow> save_game t' d)
                  (select_games i d) d)
       = map (\<lambda>g. if g \<in> {} \<union> set (select_games i d)
                   then (case replace_player i g of None \<Rightarrow> g | Some g' \<Rightarrow> g') else g) (games d)"
    by (rule fold_save_games_inv [OF assms]) (auto simp: select_games_def)
  also have "\<dots> = map (\<lambda>g. case replace_player i g of None \<Rightarrow> g | Some g' \<Rightarrow> g') (games d)"
    by (rule map_cong [OF refl]) (auto simp: select_games_def has_player_replace)
  finally show ?thesis .
qed

lemma deleteUser_Inr:
  assumes "deleteUser rank request c = (Inr r, c')"
  shows "r = uid (boundUser request)"
    and "rank MODERATOR < rank (role (boundUser request))"
    and "cascade (boundUser request) c = (Inr (), c')"
  using assms
  by (auto simp: deleteUser_def Let_def throw_def bind_def transaction_def return_def
           split: if_splits prod.splits sum.splits)

lemma deleteUser_Inl:
  assumes "deleteUser rank request c = (Inl e, c')"
  shows "store c' = store c"
  using assms
  by (auto simp: deleteUser_def Let_def throw_def bind_def transaction_def return_def
           split: if_splits prod.splits sum.splits)

section \<open>Removing a user: runs that fail\<close>

lemma call_Inl: "call l f c = (Inl e, c') \<Longrightarrow> e = QueryFailed"
  by (auto simp: call_run split: if_splits)

lemma bind_Inl:
  assumes "bind m f c = (Inl e, c'')"
  obtains c' where "m c = (Inl e, c')" | x c' where "m c = (Inr x, c')" and "f x c' = (Inl e, c'')"
  using assms by (auto simp: bind_def split: prod.splits sum.splits)

lemma purge_Inl: "purge a u c = (Inl e, c') \<Longrightarrow> e = QueryFailed"
  by (auto simp: purge_def query_def elim!: bind_Inl dest: call_Inl)

lemma patch_games_Inl: "patch_games i ts c = (Inl e, c') \<Longrightarrow> e = QueryFailed"
proof (induction ts arbitrary: c)
  case Nil
  then show ?case by (simp add: return_def)
next
  case (Cons t ts)
  then show ?case
    by (cases "replace_player i t") (auto elim!: bind_Inl dest: call_Inl)
qed

lemma sequence_Inl:
  assumes "sequence ms c = (Inl e, c')"
      and "\<And>m c c'. m \<in> set ms \<Longrightarrow> m c = (Inl e, c') \<Longrightarrow> e = QueryFailed"
  shows "e = QueryFailed"
  using assms
proof (induction ms arbitrary: c)
  case Nil
  then show ?case by (simp add: return_def)
next
  case (Cons m ms)
  from Cons.prems(1) show ?case
  proof (simp, elim bind_Inl)
    fix c1 assume "m c = (Inl e, c1)"
    then show ?thesis using Cons.prems(2) [of m c c1] by simp
  next
    fix x c1 assume s: "sequence ms c1 = (Inl e, c')"
    show ?thesis
    proof (rule Cons.IH [OF s])
      fix m' c2 c3 assume "m' \<in> set ms" "m' c2 = (Inl e, c3)"
      then show "e = QueryFailed" using Cons.prems(2) [of m' c2 c3] by simp
    qed
  qed
qed

lemma cascade_Inl: "cascade u c = (Inl e, c') \<Longrightarrow> e = QueryFailed"
  unfolding cascade_def
  by (erule sequence_Inl)
     (auto simp: query_def dest: purge_Inl call_Inl patch_games_Inl elim!: bind_Inl)

section \<open>Removing a user: the guard\<close>


lemma value_rank_values:
  "value_rank ADMIN = 0" "value_rank MODERATOR = 1" "value_rank PENDING = 2" "value_rank USER = 3"
  by (simp_all add: value_rank_def)


section \<open>Removing a user: the claims\<close>


text \<open>
  C2. After a successful \<^verbatim>\<open>deleteUser\<close>, with game ids unique: no game row is deleted or
  added and every row keeps its id; a game whose \<^verbatim>\<open>storage.players\<close> has an entry under
  the removed user's id is the same game with exactly that entry overwritten by
  \<^verbatim>\<open>{ id: 0, team, username: 'Competitor' }\<close>, the team being the entry's own; every other
  game is untouched; and the saves issued are one per game that listed the user.
\<close>

theorem deleteUser_replaces_player:
  assumes "deleteUser rank request c = (Inr r, c')"
      and "distinct (map game_id (games (store c)))"
      and "i = uid (boundUser request)"
  shows "length (games (store c')) = length (games (store c))
       \<and> (\<forall>n < length (games (store c)).
            game_id (games (store c') ! n) = game_id (games (store c) ! n)
            \<and> (\<forall>gs ps p. storage (games (store c) ! n) = Some gs \<and> players gs = Some ps
                    \<and> ps i = Some p \<longrightarrow>
                  games (store c') ! n
                    = (games (store c) ! n)\<lparr>storage := Some (gs\<lparr>players := Some
                         (ps(i \<mapsto> \<lparr>player_id = 0, team = team p,
                                   player_username = ''Competitor''\<rparr>))\<rparr>)\<rparr>)
            \<and> (\<not> has_player i (games (store c) ! n) \<longrightarrow>
                  games (store c') ! n = games (store c) ! n))
       \<and> filter (\<lambda>x. \<exists>k. x = SaveGame k) (issued c')
           = filter (\<lambda>x. \<exists>k. x = SaveGame k) (issued c)
             @ map (\<lambda>g. SaveGame (game_id g)) (select_games i (store c))"
proof -
  note run = cascade_Inr [OF deleteUser_Inr(3) [OF assms(1)], folded assms(3)]
  have gm: "games (store c')
      = map (\<lambda>g. case replace_player i g of None \<Rightarrow> g | Some g' \<Rightarrow> g') (games (store c))"
    using run fold_save_games_map [OF assms(2), of i] by simp
  have len: "length (games (store c')) = length (games (store c))"
    by (simp add: gm)
  have pos: "game_id (games (store c') ! n) = game_id (games (store c) ! n)
            \<and> (\<forall>gs ps p. storage (games (store c) ! n) = Some gs \<and> players gs = Some ps
                    \<and> ps i = Some p \<longrightarrow>
                  games (store c') ! n
                    = (games (store c) ! n)\<lparr>storage := Some (gs\<lparr>players := Some
                         (ps(i \<mapsto> \<lparr>player_id = 0, team = team p,
                                   player_username = ''Competitor''\<rparr>))\<rparr>)\<rparr>)
            \<and> (\<not> has_player i (games (store c) ! n) \<longrightarrow>
                  games (store c') ! n = games (store c) ! n)"
    if "n < length (games (store c))" for n
    using that
    by (auto simp: gm has_player_replace replace_player_def split: option.splits)
  have log: "filter (\<lambda>x. \<exists>k. x = SaveGame k) (issued c')
           = filter (\<lambda>x. \<exists>k. x = SaveGame k) (issued c)
             @ map (\<lambda>g. SaveGame (game_id g)) (select_games i (store c))"
    using run by (simp add: filter_map comp_def)
  show ?thesis using len pos log by blast
qed

text \<open>
  C3. After a successful \<^verbatim>\<open>deleteUser\<close>, with game ids unique: the response is the id
  of the removed user; no row of any of the nine dependent tables refers to that id; no
  user row has it; and every game that listed the user as a player has, in that slot, a
  player with id 0 and username \<^verbatim>\<open>Competitor\<close>.
\<close>

theorem deleteUser_postcondition:
  assumes "deleteUser rank request c = (Inr r, c')"
      and "distinct (map game_id (games (store c)))"
      and "i = uid (boundUser request)"
  shows "r = i
       \<and> (\<forall>e. \<forall>x \<in> set (rows (store c') e). row_user x \<noteq> i)
       \<and> (\<forall>x \<in> set (users (store c')). uid x \<noteq> i)
       \<and> (\<forall>n < length (games (store c)). has_player i (games (store c) ! n) \<longrightarrow>
            (\<exists>gs ps p. storage (games (store c') ! n) = Some gs \<and> players gs = Some ps
                 \<and> ps i = Some p \<and> player_id p = 0 \<and> player_username p = ''Competitor''))"
proof -
  note run = cascade_Inr [OF deleteUser_Inr(3) [OF assms(1)], folded assms(3)]
  have r: "r = i"
    using deleteUser_Inr(1) [OF assms(1)] assms(3) by simp
  have rw: "row_user x \<noteq> i" if "x \<in> set (rows (store c') e)" for e x
  proof
    assume "row_user x = i"
    moreover have "x \<in> set (rows (store c) e)"
      and "row_id x \<notin> row_id ` {r \<in> set (rows (store c) e). row_user r = i}"
      using that run by simp_all
    ultimately show False by blast
  qed
  have us: "uid x \<noteq> i" if "x \<in> set (users (store c'))" for x
    using that run by simp
  have gm: "games (store c')
      = map (\<lambda>g. case replace_player i g of None \<Rightarrow> g | Some g' \<Rightarrow> g') (games (store c))"
    using run fold_save_games_map [OF assms(2), of i] by simp
  have sl: "\<exists>gs ps p. storage (games (store c') ! n) = Some gs \<and> players gs = Some ps
                 \<and> ps i = Some p \<and> player_id p = 0 \<and> player_username p = ''Competitor''"
    if "n < length (games (store c))" "has_player i (games (store c) ! n)" for n
    using that
    by (auto simp: gm has_player_def replace_player_def split: option.splits)
  show ?thesis using r rw us sl by blast
qed

text \<open>
  C4. Whenever \<^verbatim>\<open>deleteUser\<close> ends in an exception the store is the one before the call.
  In particular, when any database call issued by the handler is rejected, whether a
  find or a remove on a dependent table, the selection of the games, a save of a game
  or the removal of the user, the handler ends in that failure and the store is the
  one before the call: nothing of the cascade remains.
\<close>

theorem deleteUser_rollback:
  assumes "deleteUser rank request c = (r, c')"
  shows "((\<exists>e. r = Inl e) \<longrightarrow> store c' = store c)
       \<and> ((\<exists>n. length (issued c) \<le> n \<and> n < length (issued c') \<and> failing c n)
            \<longrightarrow> r = Inl QueryFailed \<and> store c' = store c)"
proof (rule conjI; rule impI)
  assume "\<exists>e. r = Inl e"
  then show "store c' = store c" using assms deleteUser_Inl by blast
next
  assume f: "\<exists>n. length (issued c) \<le> n \<and> n < length (issued c') \<and> failing c n"
  show "r = Inl QueryFailed \<and> store c' = store c"
  proof (cases r)
    case (Inr x)
    then have "cascade (boundUser request) c = (Inr (), c')"
      using assms deleteUser_Inr(3) by blast
    from cascade_Inr [OF this] f show ?thesis by blast
  next
    case (Inl e)
    then have st: "store c' = store c" using assms deleteUser_Inl by blast
    have "e = QueryFailed"
    proof (cases "rank (role (boundUser request)) \<le> rank MODERATOR")
      case True
      then have "c' = c" using assms by (simp add: deleteUser_def Let_def throw_def)
      then show ?thesis using f by auto
    next
      case False
      then obtain c1 where "cascade (boundUser request) c = (Inl e, c1)"
        using assms Inl
        by (auto simp: deleteUser_def Let_def bind_def transaction_def return_def
                 split: prod.splits sum.splits)
      then show ?thesis by (rule cascade_Inl)
    qed
    then show ?thesis using Inl st by simp
  qed
qed

lemma example_run:
  "fst (deleteUser value_rank \<lparr>user = u, boundUser = guest\<rparr> (example_conn (\<lambda>n. False))) = Inr 3"
  "users (store (snd (deleteUser value_rank \<lparr>user = u, boundUser = guest\<rparr> (example_conn (\<lambda>n. False))))) = [root]"
  "rows (store (snd (deleteUser value_rank \<lparr>user = u, boundUser = guest\<rparr> (example_conn (\<lambda>n. False))))) Activity
     = [\<lparr>row_id = 2, row_user = 7\<rparr>]"
  "rows (store (snd (deleteUser value_rank \<lparr>user = u, boundUser = guest\<rparr> (example_conn (\<lambda>n. False))))) LinkedAccount
     = []"
  "games (store (snd (deleteUser value_rank \<lparr>user = u, boundUser = guest\<rparr> (example_conn (\<lambda>n. False)))))
     = [\<lparr>game_id = 10, storage = Some \<lparr>players = Some
          [7 \<mapsto> \<lparr>player_id = 7, team = 1, player_username = ''root''\<rparr>,
           3 \<mapsto> \<lparr>player_id = 0, team = 0, player_username = ''Competitor''\<rparr>]\<rparr>\<rparr>,
        \<lparr>game_id = 11, storage = None\<rparr>]"
  "filter (\<lambda>x. \<exists>k. x = SaveGame k)
     (issued (snd (deleteUser value_rank \<lparr>user = u, boundUser = guest\<rparr> (example_conn (\<lambda>n. False)))))
     = [SaveGame 10]"
  by (simp_all add: deleteUser_def cascade_def purge_def bind_def query_run call_run transaction_def
      return_def throw_def Let_def find_rows_def remove_rows_def select_games_def has_player_def
      replace_player_def save_game_def remove_user_def value_rank_values
      root_def guest_def example_game_def example_db_def example_conn_def)



text \<open>
  The plain user of the example is removed by the administrator: the first game keeps
  both players, and the user's slot now holds the sentinel with the team it had.
\<close>

theorem deleteUser_replaces_player_witness:
  "deleteUser value_rank \<lparr>user = root, boundUser = guest\<rparr> (example_conn (\<lambda>n. False))
     = (Inr 3, snd (deleteUser value_rank \<lparr>user = root, boundUser = guest\<rparr> (example_conn (\<lambda>n. False))))
   \<and> distinct (map game_id (games (store (example_conn (\<lambda>n. False)))))
   \<and> games (store (example_conn (\<lambda>n. False))) ! 0
     = \<lparr>game_id = 10, storage = Some \<lparr>players = Some
          [7 \<mapsto> \<lparr>player_id = 7, team = 1, player_username = ''root''\<rparr>,
           3 \<mapsto> \<lparr>player_id = 3, team = 0, player_username = ''guest''\<rparr>]\<rparr>\<rparr>
   \<and> games (store (snd (deleteUser value_rank \<lparr>user = root, boundUser = guest\<rparr> (example_conn (\<lambda>n. False))))) ! 0
     = \<lparr>game_id = 10, storage = Some \<lparr>players = Some
          [7 \<mapsto> \<lparr>player_id = 7, team = 1, player_username = ''root''\<rparr>,
           3 \<mapsto> \<lparr>player_id = 0, team = 0, player_username = ''Competitor''\<rparr>]\<rparr>\<rparr>
   \<and> length (games (store (snd (deleteUser value_rank \<lparr>user = root, boundUser = guest\<rparr>
                                   (example_conn (\<lambda>n. False)))))) = 2
   \<and> filter (\<lambda>x. \<exists>k. x = SaveGame k)
        (issued (snd (deleteUser value_rank \<lparr>user = root, boundUser = guest\<rparr> (example_conn (\<lambda>n. False)))))
     = [SaveGame 10]"
proof -
  have run: "deleteUser value_rank \<lparr>user = root, boundUser = guest\<rparr> (example_conn (\<lambda>n. False))
     = (Inr 3, snd (deleteUser value_rank \<lparr>user = root, boundUser = guest\<rparr> (example_conn (\<lambda>n. False))))"
    using example_run(1) [of root] by (simp add: prod_eq_iff)
  have d: "distinct (map game_id (games (store (example_conn (\<lambda>n. False)))))"
    by (simp add: example_conn_def example_db_def example_game_def)
  have i: "3 = uid (boundUser \<lparr>user = root, boundUser = guest\<rparr>)"
    by (simp add: guest_def)
  note claim = deleteUser_replaces_player [OF run d i]
  have len: "length (games (store (snd (deleteUser value_rank \<lparr>user = root, boundUser = guest\<rparr>
                                   (example_conn (\<lambda>n. False)))))) = 2"
    using claim by (simp add: example_conn_def example_db_def)
  have log: "filter (\<lambda>x. \<exists>k. x = SaveGame k)
        (issued (snd (deleteUser value_rank \<lparr>user = root, boundUser = guest\<rparr> (example_conn (\<lambda>n. False)))))
     = [SaveGame 10]"
    using claim
    by (simp add: example_conn_def example_db_def example_game_def select_games_def has_player_def)
  have before: "games (store (example_conn (\<lambda>n. False))) ! 0
     = \<lparr>game_id = 10, storage = Some \<lparr>players = Some
          [7 \<mapsto> \<lparr>player_id = 7, team = 1, player_username = ''root''\<rparr>,
           3 \<mapsto> \<lparr>player_id = 3, team = 0, player_username = ''guest''\<rparr>]\<rparr>\<rparr>"
    by (simp add: example_conn_def example_db_def example_game_def)
  have "0 < length (games (store (example_conn (\<lambda>n. False))))"
    by (simp add: example_conn_def example_db_def)
  with claim have "\<forall>gs ps p. storage (games (store (example_conn (\<lambda>n. False))) ! 0) = Some gs
        \<and> players gs = Some ps \<and> ps 3 = Some p \<longrightarrow>
        games (store (snd (deleteUser value_rank \<lparr>user = root, boundUser = guest\<rparr> (example_conn (\<lambda>n. False))))) ! 0
          = (games (store (example_conn (\<lambda>n. False))) ! 0)\<lparr>storage := Some (gs\<lparr>players := Some
                         (ps(3 \<mapsto> \<lparr>player_id = 0, team = team p,
                                   player_username = ''Competitor''\<rparr>))\<rparr>)\<rparr>"
    by blast
  then have after: "games (store (snd (deleteUser value_rank \<lparr>user = root, boundUser = guest\<rparr>
                                        (example_conn (\<lambda>n. False))))) ! 0
     = \<lparr>game_id = 10, storage = Some \<lparr>players = Some
          [7 \<mapsto> \<lparr>player_id = 7, team = 1, player_username = ''root''\<rparr>,
           3 \<mapsto> \<lparr>player_id = 0, team = 0, player_username = ''Competitor''\<rparr>]\<rparr>\<rparr>"
    unfolding before by simp
  show ?thesis
    using run d before after len log by blast
qed

text \<open>
  The same removal: the user's activity and linked account are gone, the
  administrator's activity stays, and only the administrator remains.
\<close>

theorem deleteUser_postcondition_witness:
  "deleteUser value_rank \<lparr>user = root, boundUser = guest\<rparr> (example_conn (\<lambda>n. False))
     = (Inr 3, snd (deleteUser value_rank \<lparr>user = root, boundUser = guest\<rparr> (example_conn (\<lambda>n. False))))
   \<and> distinct (map game_id (games (store (example_conn (\<lambda>n. False)))))
   \<and> rows (store (example_conn (\<lambda>n. False))) Activity
       = [\<lparr>row_id = 1, row_user = 3\<rparr>, \<lparr>row_id = 2, row_user = 7\<rparr>]
   \<and> rows (store (snd (deleteUser value_rank \<lparr>user = root, boundUser = guest\<rparr> (example_conn (\<lambda>n. False)))))
        Activity = [\<lparr>row_id = 2, row_user = 7\<rparr>]
   \<and> rows (store (snd (deleteUser value_rank \<lparr>user = root, boundUser = guest\<rparr> (example_conn (\<lambda>n. False)))))
        LinkedAccount = []
   \<and> users (store (snd (deleteUser value_rank \<lparr>user = root, boundUser = guest\<rparr> (example_conn (\<lambda>n. False)))))
       = [root]
   \<and> list_all (\<lambda>x. row_user x \<noteq> 3)
        (rows (store (snd (deleteUser value_rank \<lparr>user = root, boundUser = guest\<rparr> (example_conn (\<lambda>n. False)))))
           Activity)"
proof -
  have run: "deleteUser value_rank \<lparr>user = root, boundUser = guest\<rparr> (example_conn (\<lambda>n. False))
     = (Inr 3, snd (deleteUser value_rank \<lparr>user = root, boundUser = guest\<rparr> (example_conn (\<lambda>n. False))))"
    using example_run(1) [of root] by (simp add: prod_eq_iff)
  have d: "distinct (map game_id (games (store (example_conn (\<lambda>n. False)))))"
    by (simp add: example_conn_def example_db_def example_game_def)
  have i: "3 = uid (boundUser \<lparr>user = root, boundUser = guest\<rparr>)"
    by (simp add: guest_def)
  note claim = deleteUser_postcondition [OF run d i]
  have "list_all (\<lambda>x. row_user x \<noteq> 3)
        (rows (store (snd (deleteUser value_rank \<lparr>user = root, boundUser = guest\<rparr> (example_conn (\<lambda>n. False)))))
           Activity)"
    using claim by (simp add: list_all_iff)
  then show ?thesis
    using run d example_run(2,3,4) [of root]
    by (simp add: example_conn_def example_db_def)
qed

text \<open>
  The removal with the twentieth call, the save of the game, rejected: the eighteen
  finds and removes before it are undone and the store is the example database.
\<close>

theorem deleteUser_rollback_witness:
  "deleteUser value_rank \<lparr>user = root, boundUser = guest\<rparr> (example_conn (\<lambda>n. n = 19))
     = (Inl QueryFailed,
        \<lparr>store = example_db,
         issued = [Find Activity, Remove Activity, Find UserProfile, Remove UserProfile,
               Find EmailOptIn, Remove EmailOptIn, Find UserStats, Remove UserStats,
               Find UserGameStats, Remove UserGameStats, Find LinkedAccount, Remove LinkedAccount,
               Find PasswordReset, Remove PasswordReset, Find EmailVerification,
               Remove EmailVerification, Find GameApplication, Remove GameApplication,
               SelectGames, SaveGame 10],
         failing = (\<lambda>n. n = 19)\<rparr>)
   \<and> failing (example_conn (\<lambda>n. n = 19)) 19
   \<and> store (example_conn (\<lambda>n. n = 19)) = example_db"
proof -
  have run: "deleteUser value_rank \<lparr>user = root, boundUser = guest\<rparr> (example_conn (\<lambda>n. n = 19))
     = (Inl QueryFailed,
        \<lparr>store = example_db,
         issued = [Find Activity, Remove Activity, Find UserProfile, Remove UserProfile,
               Find EmailOptIn, Remove EmailOptIn, Find UserStats, Remove UserStats,
               Find UserGameStats, Remove UserGameStats, Find LinkedAccount, Remove LinkedAccount,
               Find PasswordReset, Remove PasswordReset, Find EmailVerification,
               Remove EmailVerification, Find GameApplication, Remove GameApplication,
               SelectGames, SaveGame 10],
         failing = (\<lambda>n. n = 19)\<rparr>)"
    by (simp add: deleteUser_def cascade_def purge_def bind_def query_run call_run transaction_def
      return_def throw_def Let_def find_rows_def remove_rows_def select_games_def has_player_def
      replace_player_def save_game_def remove_user_def value_rank_values
      root_def guest_def example_game_def example_db_def example_conn_def)
  show ?thesis
    using run deleteUser_rollback [OF run]
    by (simp add: example_conn_def)
qed

end
